theory Spec2Isabelle
  imports Complex_Main "HOL-Library.Monad_Syntax" "HOL-Library.Multiset"
begin

section \<open>Data model\<close>

text \<open>
  The schemas of the repository (\<^verbatim>\<open>schemas/node.ts\<close>, \<^verbatim>\<open>schemas/meme.ts\<close>,
  \<^verbatim>\<open>schemas/network.ts\<close>). A TypeScript \<^verbatim>\<open>number\<close> is an IEEE double; the
  attributes, trust weights and everything computed from them by finite arithmetic are
  modelled by \<^typ>\<open>real\<close>, so every statement below is about the formulas in exact
  arithmetic (no rounding). Where the code can produce NaN or \<^verbatim>\<open>Infinity\<close> the
  model has a type with these values (section \<open>JavaScript objects and numbers\<close>).
  Counters and sizes are \<^typ>\<open>nat\<close>.

  A \<^verbatim>\<open>Record<string, number>\<close> holds its own properties: as an association list in
  enumeration order when the code enumerates it (\<^verbatim>\<open>Object.entries\<close>), as a map when it
  is only indexed. A \<^verbatim>\<open>Set<string>\<close> is the list of its elements in insertion
  order. The field \<^verbatim>\<open>id\<close> is called \<open>node_id\<close> and \<open>meme_id\<close> here, and the
  attributes of a meme \<open>meme_attributes\<close>.
\<close>

datatype NodeState = susceptible | exposed | infected | resistant

datatype IdentityClass =
  urban_professional | university_student | rural_traditional | suburban_family | tech_worker

record NodeAttributes =
  political_leaning :: real
  emotional_susceptibility :: real
  critical_thinking :: real
  education_level :: real
  social_activity :: real

record Node =
  node_id :: string
  identity_class :: IdentityClass
  attributes :: NodeAttributes
  trust_network :: "(string \<times> real) list"
  current_beliefs :: "string list"
  exposure_history :: "string list"
  state :: NodeState
  pos_x :: "real option"
  pos_y :: "real option"
  vel_x :: "real option"
  vel_y :: "real option"

datatype ContentType = political_conspiracy | health_misinformation | factual_news | neutral

record MemeAttributes =
  political_bias :: real
  emotional_intensity :: real
  factual_accuracy :: real
  complexity :: real
  virality_factor :: real
  source_credibility :: real

record Meme =
  meme_id :: string
  content_type :: ContentType
  title :: string
  meme_attributes :: MemeAttributes
  timestamp :: real
  generation :: nat
  parent_id :: "string option"

datatype NetworkType = small_world | scale_free | random_net

record Edge =
  source :: string
  target :: string
  trust_weight :: real

record NetworkMetadata =
  net_type :: NetworkType
  net_size :: nat
  avg_degree :: real
  created_at :: string

record Network =
  nodes :: "Node list"
  edges :: "Edge list"
  metadata :: NetworkMetadata

text \<open>The documented ranges of the attributes.\<close>

definition node_in_range :: "Node \<Rightarrow> bool" where
  "node_in_range n =
     (- 1 \<le> political_leaning (attributes n) \<and> political_leaning (attributes n) \<le> 1 \<and>
      0 \<le> emotional_susceptibility (attributes n) \<and> emotional_susceptibility (attributes n) \<le> 1 \<and>
      0 \<le> critical_thinking (attributes n) \<and> critical_thinking (attributes n) \<le> 1 \<and>
      0 \<le> education_level (attributes n) \<and> education_level (attributes n) \<le> 1 \<and>
      0 \<le> social_activity (attributes n) \<and> social_activity (attributes n) \<le> 1)"

definition meme_in_range :: "Meme \<Rightarrow> bool" where
  "meme_in_range m =
     (- 1 \<le> political_bias (meme_attributes m) \<and> political_bias (meme_attributes m) \<le> 1 \<and>
      0 \<le> emotional_intensity (meme_attributes m) \<and> emotional_intensity (meme_attributes m) \<le> 1 \<and>
      0 \<le> factual_accuracy (meme_attributes m) \<and> factual_accuracy (meme_attributes m) \<le> 1 \<and>
      0 \<le> complexity (meme_attributes m) \<and> complexity (meme_attributes m) \<le> 1 \<and>
      0 \<le> virality_factor (meme_attributes m) \<and> virality_factor (meme_attributes m) \<le> 1 \<and>
      0 \<le> source_credibility (meme_attributes m) \<and> source_credibility (meme_attributes m) \<le> 1)"

section \<open>JavaScript objects and numbers\<close>

text \<open>
  A \<^verbatim>\<open>Record<string, number>\<close> is a plain object. Reading \<^verbatim>\<open>obj[k]\<close> yields the
  own property \<open>k\<close> of the object when it has one. Otherwise the lookup goes on in
  \<^verbatim>\<open>Object.prototype\<close>, whose property names are listed below: under these the result
  is a function (under \<^verbatim>\<open>__proto__\<close> the prototype object itself), which is not
  \<^verbatim>\<open>undefined\<close> and not a number. Under every other key the result is
  \<^verbatim>\<open>undefined\<close>.
\<close>

datatype 'a Property = Undefined | Own 'a | Inherited

definition object_prototype_keys :: "string list" where
  "object_prototype_keys =
     [''constructor'', ''hasOwnProperty'', ''isPrototypeOf'', ''propertyIsEnumerable'',
      ''toLocaleString'', ''toString'', ''valueOf'', ''__proto__'',
      ''__defineGetter__'', ''__defineSetter__'', ''__lookupGetter__'', ''__lookupSetter__'']"

definition js_get :: "(string \<rightharpoonup> 'a) \<Rightarrow> string \<Rightarrow> 'a Property" where
  "js_get obj k =
     (case obj k of
        Some v \<Rightarrow> Own v
      | None \<Rightarrow> if k \<in> set object_prototype_keys then Inherited else Undefined)"

text \<open>
  The assignment \<^verbatim>\<open>obj[k] = v\<close> of a number creates or overwrites the own property
  \<open>k\<close>; under \<^verbatim>\<open>__proto__\<close>, when the object has no own property of that name, it
  calls the inherited setter, which ignores a value that is not an object.
\<close>

definition js_set :: "(string \<rightharpoonup> 'a) \<Rightarrow> string \<Rightarrow> 'a \<Rightarrow> (string \<rightharpoonup> 'a)" where
  "js_set obj k v = (if k = ''__proto__'' \<and> obj k = None then obj else obj(k \<mapsto> v))"

text \<open>
  A number that need not be finite. Arithmetic with a value that is not a number (a
  function, \<^verbatim>\<open>undefined\<close>) gives NaN, a sum with NaN is NaN, and every comparison
  with NaN is false. Negative infinity does not occur: the code subtracts nothing from and
  negates nothing that can be infinite.
\<close>

datatype JsNumber = Finite real | Infinity | NaN

fun js_add :: "JsNumber \<Rightarrow> JsNumber \<Rightarrow> JsNumber" where
  "js_add (Finite a) (Finite b) = Finite (a + b)"
| "js_add NaN b = NaN"
| "js_add a NaN = NaN"
| "js_add a b = Infinity"

fun js_less :: "JsNumber \<Rightarrow> JsNumber \<Rightarrow> bool" where
  "js_less (Finite a) (Finite b) = (a < b)"
| "js_less (Finite a) Infinity = True"
| "js_less a b = False"

text \<open>
  \<^verbatim>\<open>items.sort((a, b) => a.priority - b.priority)\<close>. The comparator is positive exactly
  when \<open>b.priority < a.priority\<close>, and a result NaN counts as 0. With finite priorities
  this is a consistent comparator and the sort is the stable sort by priority, which an
  insertion sort is. When a priority is NaN the comparator is not consistent and the
  language leaves the order to the implementation; the model then takes the order of the
  same insertion sort.
\<close>

fun insort_priority :: "JsNumber \<times> 'a \<Rightarrow> (JsNumber \<times> 'a) list \<Rightarrow> (JsNumber \<times> 'a) list" where
  "insort_priority x [] = [x]"
| "insort_priority x (y # ys) =
     (if js_less (fst y) (fst x) then y # insort_priority x ys else x # y # ys)"

definition sort_priority :: "(JsNumber \<times> 'a) list \<Rightarrow> (JsNumber \<times> 'a) list" where
  "sort_priority xs = foldr insort_priority xs []"

text \<open>
  A \<^verbatim>\<open>for (const x of xs)\<close> loop whose body can throw: \<^const>\<open>None\<close> is the exception,
  which ends the loop.
\<close>

fun for_each :: "('s \<Rightarrow> 'a \<Rightarrow> 's option) \<Rightarrow> 's \<Rightarrow> 'a list \<Rightarrow> 's option" where
  "for_each body s [] = Some s"
| "for_each body s (x # xs) = (case body s x of None \<Rightarrow> None | Some s' \<Rightarrow> for_each body s' xs)"

section \<open>Acceptance model (\<^verbatim>\<open>algorithms/propagation.ts\<close>)\<close>

definition clamp :: "real \<Rightarrow> real \<Rightarrow> real \<Rightarrow> real" where
  "clamp v lo hi = max lo (min hi v)"

definition calculateAcceptanceProbability :: "Node \<Rightarrow> Meme \<Rightarrow> Node \<Rightarrow> real \<Rightarrow> real" where
  "calculateAcceptanceProbability node meme sourceNode trustWeight =
     (let BASE_RECEPTIVITY = 0.3;
          trustFactor = trustWeight;
          politicalDistance =
            \<bar>political_leaning (attributes node) - political_bias (meme_attributes meme)\<bar>;
          politicalAlignment = 1 - politicalDistance;
          criticalThinkingPenalty =
            (if factual_accuracy (meme_attributes meme) < 0.5
             then critical_thinking (attributes node) * (1 - factual_accuracy (meme_attributes meme))
             else 0);
          alignmentScore = politicalAlignment * (1 - criticalThinkingPenalty);
          viralityBoost =
            1 + (virality_factor (meme_attributes meme) * emotional_susceptibility (attributes node));
          probability = BASE_RECEPTIVITY * trustFactor * alignmentScore * viralityBoost
      in clamp probability 0.05 0.95)"

definition calculateTransmissionProbability :: "Node \<Rightarrow> Meme \<Rightarrow> real \<Rightarrow> real" where
  "calculateTransmissionProbability node meme daysSinceInfected =
     (let noveltyFactor = max 0.3 (1 - (daysSinceInfected / 7));
          probability =
            social_activity (attributes node) *
            virality_factor (meme_attributes meme) *
            (1 + emotional_intensity (meme_attributes meme) * 0.5) *
            noveltyFactor
      in clamp probability 0.0 1.0)"

section \<open>Edge costs and heuristics of the two search modes (\<^verbatim>\<open>algorithms/astar-modes.ts\<close>)\<close>

datatype AStarMode = social_trust | meme_trust

definition calculateSocialTrustCost :: "Node \<Rightarrow> Node \<Rightarrow> real \<Rightarrow> real" where
  "calculateSocialTrustCost sourceNode targetNode trustWeight =
     (let baseCost = 1 - trustWeight;
          identitySimilarity =
            (if identity_class sourceNode = identity_class targetNode then 0.8 else 1.0);
          politicalDistance =
            \<bar>political_leaning (attributes sourceNode) - political_leaning (attributes targetNode)\<bar>;
          politicalFactor = 1 + (politicalDistance * 0.3);
          activityFactor = 1 - (social_activity (attributes targetNode) * 0.2);
          totalCost = baseCost * identitySimilarity * politicalFactor * activityFactor
      in max 0.05 (min 2.0 totalCost))"

definition calculateMemeTrustCost :: "Node \<Rightarrow> Meme \<Rightarrow> Node \<Rightarrow> real \<Rightarrow> real" where
  "calculateMemeTrustCost node meme sourceNode trustWeight =
     (let BASE_RECEPTIVITY = 0.3;
          trustFactor = trustWeight;
          politicalDistance =
            \<bar>political_leaning (attributes node) - political_bias (meme_attributes meme)\<bar>;
          politicalAlignment = 1 - politicalDistance;
          criticalThinkingPenalty =
            (if factual_accuracy (meme_attributes meme) < 0.5
             then critical_thinking (attributes node) * (1 - factual_accuracy (meme_attributes meme))
             else 0);
          complexityPenalty =
            \<bar>complexity (meme_attributes meme) - education_level (attributes node)\<bar> * 0.3;
          credibilityFactor = 0.7 + (source_credibility (meme_attributes meme) * 0.3);
          alignmentScore =
            politicalAlignment * (1 - criticalThinkingPenalty) * (1 - complexityPenalty);
          viralityBoost =
            1 + (virality_factor (meme_attributes meme) * emotional_susceptibility (attributes node));
          acceptanceProbability =
            BASE_RECEPTIVITY * trustFactor * alignmentScore * viralityBoost * credibilityFactor;
          clampedProb = max 0.05 (min 0.95 acceptanceProbability);
          cost = 1 - clampedProb
      in cost)"

text \<open>
  The heuristics take the network as a parameter and never read it; the parameter is kept.
  \<^verbatim>\<open>currentNode.trust_network[targetNode.id]\<close> is a lookup in a plain object; when it
  yields an inherited function, \<^verbatim>\<open>1 - directTrust\<close> is NaN and so is the heuristic.
\<close>

definition socialTrustHeuristic :: "Node \<Rightarrow> Node \<Rightarrow> Network \<Rightarrow> JsNumber" where
  "socialTrustHeuristic currentNode targetNode network =
     (let identityDistance =
            (if identity_class currentNode = identity_class targetNode then 0 else 0.5);
          politicalDistance =
            \<bar>political_leaning (attributes currentNode) - political_leaning (attributes targetNode)\<bar>;
          politicalCost = politicalDistance * 0.5;
          directTrust = js_get (map_of (trust_network currentNode)) (node_id targetNode);
          connectionCost =
            (case directTrust of
               Undefined \<Rightarrow> Finite 1.0
             | Own t \<Rightarrow> Finite ((1 - t) * 0.5)
             | Inherited \<Rightarrow> NaN);
          activityCost = (1 - social_activity (attributes targetNode)) * 0.3
      in js_add (js_add (Finite (identityDistance + politicalCost)) connectionCost)
           (Finite activityCost))"

definition memeTrustHeuristic :: "Node \<Rightarrow> Node \<Rightarrow> Meme \<Rightarrow> Network \<Rightarrow> JsNumber" where
  "memeTrustHeuristic currentNode targetNode meme network =
     (let targetMemeAlignment =
            \<bar>political_leaning (attributes targetNode) - political_bias (meme_attributes meme)\<bar>;
          alignmentCost = targetMemeAlignment * 1.5;
          criticalBarrier =
            (if factual_accuracy (meme_attributes meme) < 0.5
             then critical_thinking (attributes targetNode) * 0.8 else 0);
          complexityMismatch =
            \<bar>complexity (meme_attributes meme) - education_level (attributes targetNode)\<bar> * 0.4;
          emotionalResistance =
            (1 - emotional_susceptibility (attributes targetNode)) *
            (1 - virality_factor (meme_attributes meme)) * 0.3;
          directTrust = js_get (map_of (trust_network currentNode)) (node_id targetNode);
          socialCost =
            (case directTrust of
               Undefined \<Rightarrow> Finite 0.8
             | Own t \<Rightarrow> Finite ((1 - t) * 0.3)
             | Inherited \<Rightarrow> NaN)
      in js_add (Finite (alignmentCost + criticalBarrier + complexityMismatch + emotionalResistance))
           socialCost)"

definition calculateHeuristic :: "Node \<Rightarrow> Node \<Rightarrow> Meme \<Rightarrow> Network \<Rightarrow> AStarMode \<Rightarrow> JsNumber" where
  "calculateHeuristic currentNode targetNode meme network mode =
     (if mode = social_trust then socialTrustHeuristic currentNode targetNode network
      else memeTrustHeuristic currentNode targetNode meme network)"

section \<open>Graph access (\<^verbatim>\<open>getNeighbors\<close> of \<^verbatim>\<open>algorithms/propagation.ts\<close>)\<close>

text \<open>
  \<^verbatim>\<open>node.trust_network[n.id] !== undefined\<close> is a lookup in a plain object: it also holds
  of an id that the trust map does not have and \<^verbatim>\<open>Object.prototype\<close> has.
\<close>

definition getNeighbors :: "Network \<Rightarrow> string \<Rightarrow> Node list" where
  "getNeighbors network nodeId =
     (case find (\<lambda>n. node_id n = nodeId) (nodes network) of
        None \<Rightarrow> []
      | Some node \<Rightarrow>
          filter (\<lambda>n. js_get (map_of (trust_network node)) (node_id n) \<noteq> Undefined) (nodes network))"

text \<open>\<^verbatim>\<open>Set.add\<close> on a set kept in insertion order.\<close>

definition set_add :: "string list \<Rightarrow> string \<Rightarrow> string list" where
  "set_add s x = (if x \<in> set s then s else s @ [x])"

section \<open>Spread estimation (\<^verbatim>\<open>estimateSpread\<close>, with the CELF strategies in \<^verbatim>\<open>algorithms/celf/strategy-comparison.ts\<close>)\<close>

text \<open>
  What the selectors act on besides their arguments: the caller's graph instance, the
  process-wide random source, and (for counting only, the code keeps no such counter) the
  number of calls of \<^verbatim>\<open>estimateSpread\<close> made so far. The random source is a fixed
  sequence \<open>rnd\<close>; \<open>draws\<close> is the number of values \<^verbatim>\<open>Math.random()\<close> has returned.
\<close>

record World =
  world_graph :: Network
  draws :: nat
  spreadCalls :: nat

definition math_random :: "(nat \<Rightarrow> real) \<Rightarrow> World \<Rightarrow> real \<times> World" where
  "math_random rnd w = (rnd (draws w), w\<lparr>draws := Suc (draws w)\<rparr>)"

text \<open>The locals of one simulation run.\<close>

record Cascade =
  infectedSet :: "string list"
  queue :: "string list"
  world :: World

text \<open>The body of \<^verbatim>\<open>for (const [neighborId, trustWeight] of Object.entries(...))\<close>.\<close>

definition tryInfect ::
  "(nat \<Rightarrow> real) \<Rightarrow> Meme \<Rightarrow> Node \<Rightarrow> Cascade \<Rightarrow> string \<times> real \<Rightarrow> Cascade" where
  "tryInfect rnd meme currentNode c entry =
     (let neighborId = fst entry; trustWeight = snd entry
      in if neighborId \<in> set (infectedSet c) then c
         else
           (case find (\<lambda>n. node_id n = neighborId) (nodes (world_graph (world c))) of
              None \<Rightarrow> c
            | Some neighbor \<Rightarrow>
                (let acceptanceProb =
                       calculateAcceptanceProbability neighbor meme currentNode trustWeight;
                     (r, w') = math_random rnd (world c)
                 in if r < acceptanceProb
                    then c\<lparr>infectedSet := set_add (infectedSet c) neighborId,
                           queue := queue c @ [neighborId],
                           world := w'\<rparr>
                    else c\<lparr>world := w'\<rparr>)))"

text \<open>The \<^verbatim>\<open>while (queue.length > 0)\<close> loop of one run; \<^const>\<open>None\<close> is a run that never ends.\<close>

partial_function (option) cascade_loop :: "(nat \<Rightarrow> real) \<Rightarrow> Meme \<Rightarrow> Cascade \<Rightarrow> Cascade option" where
  "cascade_loop rnd meme c =
     (case queue c of
        [] \<Rightarrow> Some c
      | currentId # rest \<Rightarrow>
          (let c1 = c\<lparr>queue := rest\<rparr>
           in case find (\<lambda>n. node_id n = currentId) (nodes (world_graph (world c1))) of
                None \<Rightarrow> cascade_loop rnd meme c1
              | Some currentNode \<Rightarrow>
                  cascade_loop rnd meme
                    (foldl (tryInfect rnd meme currentNode) c1 (trust_network currentNode))))"

declare cascade_loop.simps [code]

text \<open>
  The \<^verbatim>\<open>for (let sim = 0; sim < simulations; sim++)\<close> loop with \<open>k\<close> runs left and the
  running \<open>totalSpread\<close>.
\<close>

fun simulate ::
  "(nat \<Rightarrow> real) \<Rightarrow> string list \<Rightarrow> Meme \<Rightarrow> nat \<Rightarrow> real \<Rightarrow> World \<Rightarrow> (real \<times> World) option" where
  "simulate rnd seedSet meme 0 totalSpread w = Some (totalSpread, w)"
| "simulate rnd seedSet meme (Suc k) totalSpread w =
     do {
       c \<leftarrow> cascade_loop rnd meme \<lparr>infectedSet = seedSet, queue = seedSet, world = w\<rparr>;
       simulate rnd seedSet meme k (totalSpread + real (length (infectedSet c))) (world c)
     }"

text \<open>
  \<open>simulations\<close> is a count of at least one (for 0 the code divides 0 by 0 and returns
  NaN, which \<^typ>\<open>real\<close> does not have).
\<close>

definition estimateSpread ::
  "(nat \<Rightarrow> real) \<Rightarrow> string list \<Rightarrow> Meme \<Rightarrow> nat \<Rightarrow> World \<Rightarrow> (real \<times> World) option" where
  "estimateSpread rnd seedSet meme simulations w =
     do {
       (totalSpread, w') \<leftarrow> simulate rnd seedSet meme simulations 0 (w\<lparr>spreadCalls := Suc (spreadCalls w)\<rparr>);
       Some (totalSpread / real simulations, w')
     }"

definition calculateMarginalGain ::
  "(nat \<Rightarrow> real) \<Rightarrow> string list \<Rightarrow> string \<Rightarrow> Meme \<Rightarrow> nat \<Rightarrow> World \<Rightarrow> (real \<times> World) option" where
  "calculateMarginalGain rnd seedSet nodeId meme simulations w =
     do {
       (spreadWithout, w1) \<leftarrow> estimateSpread rnd seedSet meme simulations w;
       let newSeedSet = set_add seedSet nodeId;
       (spreadWith, w2) \<leftarrow> estimateSpread rnd newSeedSet meme simulations w1;
       Some (spreadWith - spreadWithout, w2)
     }"

section \<open>The propagation step (\<^verbatim>\<open>simulatePropagationStep\<close> of \<^verbatim>\<open>algorithms/propagation.ts\<close>)\<close>

text \<open>
  The one function of the propagation module that writes to the graph: it marks the
  neighbours it reaches as exposed and, when they accept, as infected. A neighbour is an
  object of \<^verbatim>\<open>network.nodes\<close>, here the node at an index of the node list. Of an
  infected node only the id, the attributes and the trust map are read, and the step
  assigns to none of them, so the infected nodes are passed as values.
\<close>

record PropagationStepResult =
  newInfections :: "Node list"
  transmissions :: "(string \<times> string \<times> bool) list"

text \<open>
  The body of \<^verbatim>\<open>for (const neighbor of neighbors)\<close>, for the neighbour at index \<open>i\<close>.
  With a trust weight that is not a number the acceptance probability is NaN, and no
  random value is below NaN.
\<close>

definition transmitTo ::
  "(nat \<Rightarrow> real) \<Rightarrow> Meme \<Rightarrow> Node \<Rightarrow> PropagationStepResult \<times> World \<Rightarrow> nat \<Rightarrow> PropagationStepResult \<times> World" where
  "transmitTo rnd meme infectedNode acc i =
     (let res = fst acc; w = snd acc;
          neighbor = nodes (world_graph w) ! i
      in if state neighbor \<noteq> susceptible then acc
         else
           (let trustWeight = js_get (map_of (trust_network infectedNode)) (node_id neighbor);
                neighbor1 =
                  (if meme_id meme \<notin> set (exposure_history neighbor)
                   then neighbor\<lparr>exposure_history := exposure_history neighbor @ [meme_id meme],
                                 state := exposed\<rparr>
                   else neighbor);
                pAccept =
                  (case trustWeight of
                     Own t \<Rightarrow> Finite (calculateAcceptanceProbability neighbor1 meme infectedNode t)
                   | _ \<Rightarrow> NaN);
                (r, w1) = math_random rnd w;
                accepted = js_less (Finite r) pAccept;
                neighbor2 =
                  (if accepted
                   then neighbor1\<lparr>current_beliefs := current_beliefs neighbor1 @ [meme_id meme],
                                  state := infected\<rparr>
                   else neighbor1);
                g = world_graph w1
            in (res\<lparr>newInfections :=
                      (if accepted then newInfections res @ [neighbor2] else newInfections res),
                    transmissions :=
                      transmissions res @ [(node_id infectedNode, node_id neighbor, accepted)]\<rparr>,
                w1\<lparr>world_graph := g\<lparr>nodes := (nodes g)[i := neighbor2]\<rparr>\<rparr>)))"

text \<open>The body of \<^verbatim>\<open>for (const infectedNode of currentlyInfected)\<close>.\<close>

definition transmitFrom ::
  "(nat \<Rightarrow> real) \<Rightarrow> Meme \<Rightarrow> real \<Rightarrow> PropagationStepResult \<times> World \<Rightarrow> Node \<Rightarrow> PropagationStepResult \<times> World" where
  "transmitFrom rnd meme currentStep acc infectedNode =
     (let pTransmit = calculateTransmissionProbability infectedNode meme currentStep;
          (r, w1) = math_random rnd (snd acc)
      in if r < pTransmit
         then
           (let neighbors =
                  filter (\<lambda>i. js_get (map_of (trust_network infectedNode))
                                      (node_id (nodes (world_graph w1) ! i)) \<noteq> Undefined)
                    [0 ..< length (nodes (world_graph w1))]
            in foldl (transmitTo rnd meme infectedNode) (fst acc, w1) neighbors)
         else (fst acc, w1))"

definition simulatePropagationStep ::
  "(nat \<Rightarrow> real) \<Rightarrow> Node list \<Rightarrow> Meme \<Rightarrow> real \<Rightarrow> World \<Rightarrow> PropagationStepResult \<times> World" where
  "simulatePropagationStep rnd currentlyInfected meme currentStep w =
     foldl (transmitFrom rnd meme currentStep) (\<lparr>newInfections = [], transmissions = []\<rparr>, w)
       currentlyInfected"

section \<open>The pathfinder (\<^verbatim>\<open>astarInfluencePath\<close>)\<close>

text \<open>
  The module of \<^verbatim>\<open>src/unnamed/part_003\<close>. The priority queue keeps its items sorted:
  \<^verbatim>\<open>push\<close> appends and sorts by priority, \<^verbatim>\<open>pop\<close> takes the first item. A
  \<open>gScore\<close> is a sum of edge costs computed from numbers, so it is a \<^typ>\<open>real\<close>; a
  priority is the sum of a \<open>gScore\<close> and a heuristic value, which can be NaN.
\<close>

record QItem =
  nodeId :: string
  path :: "string list"
  gScore :: real

definition pq_push :: "JsNumber \<Rightarrow> 'a \<Rightarrow> (JsNumber \<times> 'a) list \<Rightarrow> (JsNumber \<times> 'a) list" where
  "pq_push priority item items = sort_priority (items @ [(priority, item)])"

record AStarFrame =
  frame_step :: nat
  frame_currentNode :: string
  frame_openSet :: "string list"
  frame_closedSet :: "string list"
  frame_path :: "string list"
  frame_gScores :: "string \<rightharpoonup> real"
  frame_fScores :: "string \<rightharpoonup> JsNumber"
  frame_message :: string

text \<open>
  \<^verbatim>\<open>explainPathCost\<close> renders the numbers of one step as text with \<^verbatim>\<open>toFixed\<close>; the
  model keeps the numbers it renders, not the rendering.
\<close>

datatype Explanation =
  SocialTrustPath real bool real real real
| MemeTrustPath real real real real real real real

definition explainPathCost :: "Node \<Rightarrow> Node \<Rightarrow> Meme \<Rightarrow> real \<Rightarrow> AStarMode \<Rightarrow> Explanation" where
  "explainPathCost sourceNode targetNode meme trustWeight mode =
     (if mode = social_trust then
        (let cost = calculateSocialTrustCost sourceNode targetNode trustWeight
         in SocialTrustPath trustWeight
              (identity_class sourceNode = identity_class targetNode)
              \<bar>political_leaning (attributes sourceNode) - political_leaning (attributes targetNode)\<bar>
              (social_activity (attributes targetNode))
              cost)
      else
        (let cost = calculateMemeTrustCost targetNode meme sourceNode trustWeight;
             acceptProb = 1 - cost
         in MemeTrustPath trustWeight
              (1 - \<bar>political_leaning (attributes targetNode) - political_bias (meme_attributes meme)\<bar>)
              (critical_thinking (attributes targetNode))
              (factual_accuracy (meme_attributes meme))
              (virality_factor (meme_attributes meme) * emotional_susceptibility (attributes targetNode))
              acceptProb
              cost))"

record AStarResult =
  success :: bool
  result_path :: "string list"
  cost :: JsNumber
  exploredCount :: nat
  result_frames :: "AStarFrame list"
  result_mode :: AStarMode
  result_pathExplanations :: "(string \<times> string \<times> Explanation) list option"

text \<open>
  The locals of \<^verbatim>\<open>astarInfluencePath\<close> that its loop updates, together with the
  caller's graph instance \<open>graph\<close>: the function receives the network by reference, so what
  it leaves behind in it is part of what it returns.
\<close>

record AStarSearch =
  graph :: Network
  openSet :: "(JsNumber \<times> QItem) list"
  gScores :: "string \<rightharpoonup> real"
  fScores :: "string \<rightharpoonup> JsNumber"
  frames :: "AStarFrame list"
  closedSet :: "string list"
  pathExplanations :: "(string \<times> string \<times> Explanation) list"
  step :: nat

text \<open>
  The body of \<^verbatim>\<open>for (const neighbor of neighbors)\<close>; \<^const>\<open>None\<close> is an exception.
  \<open>gScores\<close> and \<open>fScores\<close> are plain objects. When the trust weight read from the
  current node is not a number, the step cost and the tentative \<open>gScore\<close> are NaN and
  the comparison with the known \<open>gScore\<close> is false, so the guard is
  \<^verbatim>\<open>gScores[neighbor.id] === undefined\<close>; when it holds, \<^verbatim>\<open>explainPathCost\<close> calls
  \<^verbatim>\<open>toFixed\<close> on the weight, which throws.
\<close>

definition expandNeighbor ::
  "Node \<Rightarrow> Meme \<Rightarrow> AStarMode \<Rightarrow> Node \<Rightarrow> QItem \<Rightarrow> AStarSearch \<Rightarrow> Node \<Rightarrow> AStarSearch option" where
  "expandNeighbor targetNode meme mode currentNode current st neighbor =
     (if node_id neighbor \<in> set (closedSet st) then Some st
      else
        (case js_get (map_of (trust_network currentNode)) (node_id neighbor) of
           Own trustWeight \<Rightarrow>
             (let stepCost =
                    (if mode = social_trust
                     then calculateSocialTrustCost currentNode neighbor trustWeight
                     else calculateMemeTrustCost neighbor meme currentNode trustWeight);
                  tentativeGScore = gScore current + stepCost
              in if (case js_get (gScores st) (node_id neighbor) of
                       Undefined \<Rightarrow> True
                     | Own g \<Rightarrow> tentativeGScore < g
                     | Inherited \<Rightarrow> False)
                 then
                   (let hScore = calculateHeuristic neighbor targetNode meme (graph st) mode;
                        fScore = js_add (Finite tentativeGScore) hScore;
                        newPath = path current @ [node_id neighbor];
                        explanation = explainPathCost currentNode neighbor meme trustWeight mode
                    in Some (st\<lparr>gScores := js_set (gScores st) (node_id neighbor) tentativeGScore,
                                fScores := js_set (fScores st) (node_id neighbor) fScore,
                                pathExplanations :=
                                  pathExplanations st @ [(node_id currentNode, node_id neighbor, explanation)],
                                openSet :=
                                  pq_push fScore
                                    \<lparr>nodeId = node_id neighbor, path = newPath, gScore = tentativeGScore\<rparr>
                                    (openSet st)\<rparr>))
                 else Some st)
         | _ \<Rightarrow>
             (if js_get (gScores st) (node_id neighbor) = Undefined then None else Some st)))"

definition failure :: "AStarMode \<Rightarrow> nat \<Rightarrow> AStarFrame list \<Rightarrow> AStarResult" where
  "failure mode explored fs =
     \<lparr>success = False, result_path = [], cost = Infinity, exploredCount = explored,
      result_frames = fs, result_mode = mode, result_pathExplanations = None\<rparr>"

text \<open>
  The \<^verbatim>\<open>while (!openSet.isEmpty())\<close> loop. \<^const>\<open>None\<close> is the loop that never
  returns, or an exception. When the popped id is the id of no node, \<^verbatim>\<open>getNeighbors\<close>
  is empty and the body of the inner loop does not run.
\<close>

partial_function (option) astar_loop ::
  "string \<Rightarrow> Node \<Rightarrow> Meme \<Rightarrow> AStarMode \<Rightarrow> AStarSearch \<Rightarrow> (AStarResult \<times> Network) option" where
  "astar_loop targetNodeId targetNode meme mode st =
     (case openSet st of
        [] \<Rightarrow> Some (failure mode (length (closedSet st)) (frames st), graph st)
      | (priority, current) # rest \<Rightarrow>
          (let currentNode = find (\<lambda>n. node_id n = nodeId current) (nodes (graph st));
               st1 = st\<lparr>openSet := rest,
                        frames := frames st @
                          [\<lparr>frame_step = step st, frame_currentNode = nodeId current,
                            frame_openSet = [], frame_closedSet = closedSet st,
                            frame_path = path current, frame_gScores = gScores st,
                            frame_fScores = fScores st,
                            frame_message = ''Exploring node '' @ nodeId current\<rparr>],
                        step := Suc (step st)\<rparr>
           in if nodeId current = targetNodeId
              then Some (\<lparr>success = True, result_path = path current,
                          cost = Finite (gScore current),
                          exploredCount = length (closedSet st1),
                          result_frames = frames st1, result_mode = mode,
                          result_pathExplanations = Some (pathExplanations st1)\<rparr>, graph st1)
              else
                (let st2 = st1\<lparr>closedSet := set_add (closedSet st1) (nodeId current)\<rparr>;
                     neighbors = getNeighbors (graph st2) (nodeId current)
                 in do {
                      st3 \<leftarrow>
                        (case currentNode of
                           None \<Rightarrow> Some st2
                         | Some cn \<Rightarrow>
                             for_each (expandNeighbor targetNode meme mode cn current) st2 neighbors);
                      astar_loop targetNodeId targetNode meme mode st3
                    })))"

declare astar_loop.simps [code]

definition astarInfluencePath ::
  "Network \<Rightarrow> string \<Rightarrow> string \<Rightarrow> Meme \<Rightarrow> AStarMode \<Rightarrow> (AStarResult \<times> Network) option" where
  "astarInfluencePath network startNodeId targetNodeId meme mode =
     (case (find (\<lambda>n. node_id n = startNodeId) (nodes network),
            find (\<lambda>n. node_id n = targetNodeId) (nodes network)) of
        (Some startNode, Some targetNode) \<Rightarrow>
          astar_loop targetNodeId targetNode meme mode
            \<lparr>graph = network,
             openSet = pq_push (Finite 0) \<lparr>nodeId = startNodeId, path = [startNodeId], gScore = 0\<rparr> [],
             gScores = [startNodeId \<mapsto> 0],
             fScores = [startNodeId \<mapsto> calculateHeuristic startNode targetNode meme network mode],
             frames = [], closedSet = [], pathExplanations = [], step = 0\<rparr>
      | _ \<Rightarrow> Some (failure mode 0 [], network))"

section \<open>Seed selection (\<^verbatim>\<open>celfSelection\<close>, \<^verbatim>\<open>celfPlusPlusSelection\<close>)\<close>

record CELFNode =
  celf_nodeId :: string
  mg1 :: real
  prevBest :: "string option"
  mg2 :: real
  flag :: nat

text \<open>\<^verbatim>\<open>Q.sort((a, b) => b.mg1 - a.mg1)\<close>: a stable sort, largest \<open>mg1\<close> first.\<close>

definition sortQ :: "CELFNode list \<Rightarrow> CELFNode list" where
  "sortQ q = sort_key (\<lambda>n. - mg1 n) q"

text \<open>
  The locals of the two selectors (\<open>lastSeed\<close> and \<open>curBest\<close> are those of CELF++). The
  calls of \<^verbatim>\<open>console.log\<close>, and the counter \<open>recomputations\<close> that only feeds them, are
  left out.
\<close>

record Selection =
  seeds :: "string list"
  seedSet :: "string list"
  Q :: "CELFNode list"
  lastSeed :: "string option"
  curBest :: "string option"
  sel_world :: World

text \<open>The initialisation loop of \<^verbatim>\<open>celfSelection\<close> over \<^verbatim>\<open>network.nodes\<close>.\<close>

fun celf_init ::
  "(nat \<Rightarrow> real) \<Rightarrow> Meme \<Rightarrow> nat \<Rightarrow> Node list \<Rightarrow> Selection \<Rightarrow> Selection option" where
  "celf_init rnd meme simulations [] s = Some s"
| "celf_init rnd meme simulations (node # rest) s =
     (if state node = susceptible
      then do {
        (mg, w') \<leftarrow> calculateMarginalGain rnd (seedSet s) (node_id node) meme simulations (sel_world s);
        celf_init rnd meme simulations rest
          (s\<lparr>Q := Q s @ [\<lparr>celf_nodeId = node_id node, mg1 = mg, prevBest = None, mg2 = 0, flag = 0\<rparr>],
             sel_world := w'\<rparr>)
      }
      else celf_init rnd meme simulations rest s)"

text \<open>The inner \<^verbatim>\<open>while (Q.length > 0)\<close> loop: it ends with the \<^verbatim>\<open>break\<close> after a selection.\<close>

partial_function (option) celf_inner ::
  "(nat \<Rightarrow> real) \<Rightarrow> Meme \<Rightarrow> nat \<Rightarrow> Selection \<Rightarrow> Selection option" where
  "celf_inner rnd meme simulations s =
     (case Q s of
        [] \<Rightarrow> Some s
      | u # rest \<Rightarrow>
          if flag u = length (seeds s)
          then Some (s\<lparr>seeds := seeds s @ [celf_nodeId u],
                      seedSet := set_add (seedSet s) (celf_nodeId u),
                      Q := rest\<rparr>)
          else do {
            (mg, w') \<leftarrow> calculateMarginalGain rnd (seedSet s) (celf_nodeId u) meme simulations (sel_world s);
            celf_inner rnd meme simulations
              (s\<lparr>Q := sortQ (u\<lparr>mg1 := mg, flag := length (seeds s)\<rparr> # rest), sel_world := w'\<rparr>)
          })"

declare celf_inner.simps [code]

partial_function (option) celf_outer ::
  "(nat \<Rightarrow> real) \<Rightarrow> Meme \<Rightarrow> real \<Rightarrow> nat \<Rightarrow> Selection \<Rightarrow> Selection option" where
  "celf_outer rnd meme budget simulations s =
     (if real (length (seeds s)) < budget \<and> Q s \<noteq> []
      then do {
        s' \<leftarrow> celf_inner rnd meme simulations s;
        celf_outer rnd meme budget simulations s'
      }
      else Some s)"

declare celf_outer.simps [code]

definition celfSelection ::
  "(nat \<Rightarrow> real) \<Rightarrow> Meme \<Rightarrow> real \<Rightarrow> nat \<Rightarrow> World \<Rightarrow> (string list \<times> World) option" where
  "celfSelection rnd meme budget simulations w =
     do {
       s0 \<leftarrow> celf_init rnd meme simulations (nodes (world_graph w))
               \<lparr>seeds = [], seedSet = [], Q = [], lastSeed = None, curBest = None, sel_world = w\<rparr>;
       s \<leftarrow> celf_outer rnd meme budget simulations (s0\<lparr>Q := sortQ (Q s0)\<rparr>);
       Some (seeds s, sel_world s)
     }"

text \<open>
  CELF++. \<^verbatim>\<open>if (curBest)\<close> tests a \<^verbatim>\<open>string | null\<close>: the empty string counts as
  false, as \<^verbatim>\<open>null\<close> does. \<^verbatim>\<open>Q.find(...)!.mg1\<close> throws when nothing is found;
  \<^const>\<open>None\<close> is a call that returns no value.
\<close>

definition truthy :: "string option \<Rightarrow> bool" where
  "truthy v = (case v of None \<Rightarrow> False | Some x \<Rightarrow> x \<noteq> [])"

fun celfpp_init ::
  "(nat \<Rightarrow> real) \<Rightarrow> Meme \<Rightarrow> nat \<Rightarrow> Node list \<Rightarrow> Selection \<Rightarrow> Selection option" where
  "celfpp_init rnd meme simulations [] s = Some s"
| "celfpp_init rnd meme simulations (node # rest) s =
     (if state node = susceptible
      then do {
        (m1, w1) \<leftarrow> calculateMarginalGain rnd (seedSet s) (node_id node) meme simulations (sel_world s);
        (m2, w2) \<leftarrow>
          (if truthy (curBest s)
           then calculateMarginalGain rnd (set_add (seedSet s) (the (curBest s))) (node_id node)
                  meme simulations w1
           else Some (0, w1));
        let q' = Q s @ [\<lparr>celf_nodeId = node_id node, mg1 = m1, prevBest = curBest s, mg2 = m2, flag = 0\<rparr>];
        best \<leftarrow>
          (if \<not> truthy (curBest s) then Some (Some (node_id node))
           else (case find (\<lambda>n. Some (celf_nodeId n) = curBest s) q' of
                   None \<Rightarrow> None
                 | Some b \<Rightarrow> Some (if m1 > mg1 b then Some (node_id node) else curBest s)));
        celfpp_init rnd meme simulations rest (s\<lparr>Q := q', curBest := best, sel_world := w2\<rparr>)
      }
      else celfpp_init rnd meme simulations rest s)"

partial_function (option) celfpp_inner ::
  "(nat \<Rightarrow> real) \<Rightarrow> Meme \<Rightarrow> nat \<Rightarrow> Selection \<Rightarrow> Selection option" where
  "celfpp_inner rnd meme simulations s =
     (case Q s of
        [] \<Rightarrow> Some s
      | u # rest \<Rightarrow>
          if flag u = length (seeds s)
          then Some (s\<lparr>seeds := seeds s @ [celf_nodeId u],
                      seedSet := set_add (seedSet s) (celf_nodeId u),
                      lastSeed := Some (celf_nodeId u),
                      Q := rest\<rparr>)
          else do {
            (u1, w') \<leftarrow>
              (if prevBest u = lastSeed s
               then Some (u\<lparr>mg1 := mg2 u\<rparr>, sel_world s)
               else do {
                 (m1, w1) \<leftarrow> calculateMarginalGain rnd (seedSet s) (celf_nodeId u) meme simulations (sel_world s);
                 (m2, w2) \<leftarrow>
                   (if truthy (curBest s)
                    then calculateMarginalGain rnd (set_add (seedSet s) (the (curBest s)))
                           (celf_nodeId u) meme simulations w1
                    else Some (mg2 u, w1));
                 Some (u\<lparr>mg1 := m1, mg2 := m2, prevBest := curBest s\<rparr>, w2)
               });
            let u2 = u1\<lparr>flag := length (seeds s)\<rparr>;
            let q' = u2 # rest;
            let curBestNode = (if truthy (curBest s) then find (\<lambda>n. Some (celf_nodeId n) = curBest s) q' else None);
            let best = (if \<not> truthy (curBest s) \<or> curBestNode = None \<or> mg1 u2 > mg1 (the curBestNode)
                        then Some (celf_nodeId u2) else curBest s);
            celfpp_inner rnd meme simulations (s\<lparr>Q := sortQ q', curBest := best, sel_world := w'\<rparr>)
          })"

declare celfpp_inner.simps [code]

partial_function (option) celfpp_outer ::
  "(nat \<Rightarrow> real) \<Rightarrow> Meme \<Rightarrow> real \<Rightarrow> nat \<Rightarrow> Selection \<Rightarrow> Selection option" where
  "celfpp_outer rnd meme budget simulations s =
     (if real (length (seeds s)) < budget \<and> Q s \<noteq> []
      then do {
        s' \<leftarrow> celfpp_inner rnd meme simulations s;
        celfpp_outer rnd meme budget simulations s'
      }
      else Some s)"

declare celfpp_outer.simps [code]

definition celfPlusPlusSelection ::
  "(nat \<Rightarrow> real) \<Rightarrow> Meme \<Rightarrow> real \<Rightarrow> nat \<Rightarrow> World \<Rightarrow> (string list \<times> World) option" where
  "celfPlusPlusSelection rnd meme budget simulations w =
     do {
       s0 \<leftarrow> celfpp_init rnd meme simulations (nodes (world_graph w))
               \<lparr>seeds = [], seedSet = [], Q = [], lastSeed = None, curBest = None, sel_world = w\<rparr>;
       s \<leftarrow> celfpp_outer rnd meme budget simulations (s0\<lparr>Q := sortQ (Q s0)\<rparr>);
       Some (seeds s, sel_world s)
     }"

section \<open>Paths and their costs\<close>

text \<open>
  The notions the claims about the pathfinder use, defined on the data of the network and
  not through the functions of the code. \<open>trust_edges\<close> is the \<^verbatim>\<open>trust_network\<close>
  adjacency: from every node there is an edge to each key of its trust map that is the id
  of a node. The cost of the edge from \<open>u\<close> to \<open>v\<close> is the mode's cost
  function on the node with id \<open>u\<close>, the node with id \<open>v\<close> and the trust weight of \<open>u\<close>
  for \<open>v\<close>. The cost of a path is the sum of the costs of its edges; a list that is not a
  path has none.
\<close>

definition edgeCost :: "AStarMode \<Rightarrow> Meme \<Rightarrow> Network \<Rightarrow> string \<Rightarrow> string \<Rightarrow> real option" where
  "edgeCost mode meme network u v =
     (case find (\<lambda>n. node_id n = u) (nodes network) of
        None \<Rightarrow> None
      | Some un \<Rightarrow>
          (case find (\<lambda>n. node_id n = v) (nodes network) of
             None \<Rightarrow> None
           | Some vn \<Rightarrow>
               (case map_of (trust_network un) v of
                  None \<Rightarrow> None
                | Some w \<Rightarrow>
                    Some (if mode = social_trust then calculateSocialTrustCost un vn w
                          else calculateMemeTrustCost vn meme un w))))"

fun pathCost :: "AStarMode \<Rightarrow> Meme \<Rightarrow> Network \<Rightarrow> string list \<Rightarrow> real option" where
  "pathCost mode meme network (u # v # rest) =
     do {
       c \<leftarrow> edgeCost mode meme network u v;
       d \<leftarrow> pathCost mode meme network (v # rest);
       Some (c + d)
     }"
| "pathCost mode meme network [u] =
     (if u \<in> node_id ` set (nodes network) then Some 0 else None)"
| "pathCost mode meme network [] = None"

definition trust_edges :: "Network \<Rightarrow> (string \<times> string) set" where
  "trust_edges network =
     (\<Union>un \<in> set (nodes network).
        {node_id un} \<times> (fst ` set (trust_network un) \<inter> node_id ` set (nodes network)))"

text \<open>
  Ids as the network generator makes them (\<^verbatim>\<open>node_0\<close>, \<^verbatim>\<open>node_1\<close>, ...): every
  node has its own id, and no id is a property name of \<^verbatim>\<open>Object.prototype\<close>.
\<close>

definition plain_ids :: "Network \<Rightarrow> bool" where
  "plain_ids network =
     (distinct (map node_id (nodes network)) \<and>
      list_all (\<lambda>n. node_id n \<notin> set object_prototype_keys) (nodes network))"

section \<open>The acceptance formula as the specification words it\<close>

text \<open>
  Section 4.1 of the specification, steps 1 to 9 (step 4, the complexity penalty, does not
  enter the product of step 8). Used only to compare with \<^const>\<open>calculateAcceptanceProbability\<close>.
\<close>

definition acceptanceProbability_spec :: "Node \<Rightarrow> Meme \<Rightarrow> Node \<Rightarrow> real \<Rightarrow> real" where
  "acceptanceProbability_spec node content sourceNode trustWeight =
     (let trustFactor = trustWeight;
          politicalAlignment =
            1 - \<bar>political_leaning (attributes node) - political_bias (meme_attributes content)\<bar>;
          criticalPenalty =
            (if factual_accuracy (meme_attributes content) < 0.5
             then critical_thinking (attributes node) * (1 - factual_accuracy (meme_attributes content))
             else 0);
          alignmentScore = politicalAlignment * (1 - criticalPenalty);
          viralityBoost =
            1 + virality_factor (meme_attributes content) * emotional_susceptibility (attributes node);
          credibilityFactor = 0.7 + source_credibility (meme_attributes content) * 0.3;
          raw = 0.3 * trustFactor * alignmentScore * viralityBoost * credibilityFactor
      in clamp raw 0.05 0.95)"

section \<open>Concrete inputs\<close>

text \<open>
  \<open>mk_node nid cls pol emo crit edu act trust\<close> is a susceptible node with the given id,
  identity class, attributes and trust map; \<open>mk_meme bias emo acc cplx vir cred\<close> a meme with
  the given attributes.
\<close>

definition mk_node ::
  "string \<Rightarrow> IdentityClass \<Rightarrow> real \<Rightarrow> real \<Rightarrow> real \<Rightarrow> real \<Rightarrow> real \<Rightarrow> (string \<times> real) list \<Rightarrow> Node" where
  "mk_node nid cls pol emo crit edu act trust =
     \<lparr>node_id = nid, identity_class = cls,
      attributes = \<lparr>political_leaning = pol, emotional_susceptibility = emo,
                    critical_thinking = crit, education_level = edu, social_activity = act\<rparr>,
      trust_network = trust, current_beliefs = [], exposure_history = [],
      state = susceptible, pos_x = None, pos_y = None, vel_x = None, vel_y = None\<rparr>"

definition mk_meme :: "real \<Rightarrow> real \<Rightarrow> real \<Rightarrow> real \<Rightarrow> real \<Rightarrow> real \<Rightarrow> Meme" where
  "mk_meme bias emo acc cplx vir cred =
     \<lparr>meme_id = ''m'', content_type = neutral, title = ''t'',
      meme_attributes = \<lparr>political_bias = bias, emotional_intensity = emo, factual_accuracy = acc,
                         complexity = cplx, virality_factor = vir, source_credibility = cred\<rparr>,
      timestamp = 0, generation = 0, parent_id = None\<rparr>"

definition mk_network :: "Node list \<Rightarrow> Network" where
  "mk_network ns =
     \<lparr>nodes = ns, edges = [],
      metadata = \<lparr>net_type = random_net, net_size = length ns, avg_degree = 0, created_at = []\<rparr>\<rparr>"

text \<open>Two nodes that trust each other with weight 0.5.\<close>

definition net2 :: Network where
  "net2 = mk_network
     [mk_node ''a'' tech_worker 0 0 0 0 0 [(''b'', 0.5)],
      mk_node ''b'' tech_worker 0 0 0 0 0 [(''a'', 0.5)]]"

text \<open>
  Four nodes with symmetric trust: \<open>s\<close> and \<open>t\<close> trust each other with weight 0.5, and
  the chain \<open>s\<close>, \<open>x\<close>, \<open>y\<close>, \<open>t\<close> is linked with weight 1. All attributes are 0.
\<close>

definition net4 :: Network where
  "net4 = mk_network
     [mk_node ''s'' tech_worker 0 0 0 0 0 [(''t'', 0.5), (''x'', 1)],
      mk_node ''x'' urban_professional 0 0 0 0 0 [(''s'', 1), (''y'', 1)],
      mk_node ''y'' urban_professional 0 0 0 0 0 [(''x'', 1), (''t'', 1)],
      mk_node ''t'' tech_worker 0 0 0 0 0 [(''s'', 0.5), (''y'', 1)]]"

text \<open>
  Four nodes of emotional susceptibility 1 with symmetric trust: \<open>s\<close> and \<open>b\<close> trust each
  other with weight 0.05, and the chain \<open>s\<close>, \<open>a\<close>, \<open>b\<close>, \<open>t\<close> is linked with weight 1.
\<close>

definition net4m :: Network where
  "net4m = mk_network
     [mk_node ''s'' tech_worker 0 1 0 0 0 [(''a'', 1), (''b'', 0.05)],
      mk_node ''a'' tech_worker 0 1 0 0 0 [(''s'', 1), (''b'', 1)],
      mk_node ''b'' tech_worker 0 1 0 0 0 [(''s'', 0.05), (''a'', 1), (''t'', 1)],
      mk_node ''t'' tech_worker 0 1 0 0 0 [(''b'', 1)]]"

text \<open>
  Three susceptible nodes \<open>a\<close>, \<open>b\<close>, \<open>c\<close> and a resistant node \<open>d\<close>; \<open>a\<close> and \<open>c\<close> are
  linked with \<open>d\<close> (weight 0.5), \<open>b\<close> is isolated.
\<close>

definition net_celf :: Network where
  "net_celf = mk_network
     [mk_node ''a'' tech_worker 0 0 0 0 0 [(''d'', 0.5)],
      mk_node ''b'' tech_worker 0 0 0 0 0 [],
      mk_node ''c'' tech_worker 0 0 0 0 0 [(''d'', 0.5)],
      (mk_node ''d'' tech_worker 0 0 0 0 0 [(''a'', 0.5), (''c'', 0.5)])\<lparr>state := resistant\<rparr>]"

text \<open>An infected node \<open>a\<close> and a susceptible node \<open>b\<close>, both of social activity 1.\<close>

definition net_active :: Network where
  "net_active = mk_network
     [(mk_node ''a'' tech_worker 0 0 0 0 1 [(''b'', 0.5)])\<lparr>state := infected\<rparr>,
      mk_node ''b'' tech_worker 0 0 0 0 1 [(''a'', 0.5)]]"

text \<open>The world before a call: the graph, no random value drawn, no call counted.\<close>

definition fresh_world :: "Network \<Rightarrow> World" where
  "fresh_world n = \<lparr>world_graph = n, draws = 0, spreadCalls = 0\<rparr>"

text \<open>A random source whose second value is 0 and whose other values are 0.99.\<close>

definition rnd_second_low :: "nat \<Rightarrow> real" where
  "rnd_second_low i = (if i = 1 then 0 else 0.99)"

text \<open>
  Six susceptible nodes with symmetric trust of weight 1: \<open>p\<close> and \<open>y\<close> are linked,
  \<open>u\<close> is linked with \<open>x\<close> and with \<open>s1\<close>, and \<open>v\<close> is alone. \<open>p\<close> and \<open>s1\<close> have
  political leaning 1, the other nodes 0. A meme of political bias 0 is accepted with
  probability 0.3 by the nodes of leaning 0 and with probability 0.05 by \<open>p\<close> and \<open>s1\<close>.
\<close>

definition net_stale :: Network where
  "net_stale = mk_network
     [mk_node ''p'' tech_worker 1 0 0 0 0 [(''y'', 1)],
      mk_node ''y'' tech_worker 0 0 0 0 0 [(''p'', 1)],
      mk_node ''u'' tech_worker 0 0 0 0 0 [(''x'', 1), (''s1'', 1)],
      mk_node ''x'' tech_worker 0 0 0 0 0 [(''u'', 1)],
      mk_node ''v'' tech_worker 0 0 0 0 0 [],
      mk_node ''s1'' tech_worker 1 0 0 0 0 [(''u'', 1)]]"

text \<open>
  A random source whose every value is 0.1. On \<open>net_stale\<close> every run of the cascade is
  then the same: a node of leaning 0 accepts from every infected neighbour, and \<open>p\<close> and
  \<open>s1\<close> never accept.
\<close>

definition rnd_tenth :: "nat \<Rightarrow> real" where
  "rnd_tenth i = 1 / 10"

text \<open>The candidates of a selection: the ids of the susceptible nodes, in network order.\<close>

definition candidates :: "Node list \<Rightarrow> string list" where
  "candidates ns = map node_id (filter (\<lambda>n. state n = susceptible) ns)"

section \<open>Measures and invariants of the loops\<close>

text \<open>
  Used in the proofs only. A run of the cascade loop ends because every iteration either
  shortens the queue or infects a node of the graph that was not infected:
\<close>

definition cascade_measure :: "Cascade \<Rightarrow> nat" where
  "cascade_measure c =
     2 * card (node_id ` set (nodes (world_graph (world c))) - set (infectedSet c)) + length (queue c)"

text \<open>
  \<open>astar_next\<close> is the state at the next head of the pathfinder's loop, after an iteration
  that popped \<open>current\<close> (not the target) and left \<open>rest\<close> in the queue.
\<close>

definition queue_ids :: "(JsNumber \<times> QItem) list \<Rightarrow> string set" where
  "queue_ids q = nodeId ` snd ` set q"

definition astar_next ::
  "Node \<Rightarrow> Meme \<Rightarrow> AStarMode \<Rightarrow> AStarSearch \<Rightarrow> QItem \<Rightarrow> (JsNumber \<times> QItem) list \<Rightarrow> AStarSearch option" where
  "astar_next targetNode meme mode st current rest =
     (let st1 = st\<lparr>openSet := rest,
                  frames := frames st @
                    [\<lparr>frame_step = step st, frame_currentNode = nodeId current,
                      frame_openSet = [], frame_closedSet = closedSet st,
                      frame_path = path current, frame_gScores = gScores st,
                      frame_fScores = fScores st,
                      frame_message = ''Exploring node '' @ nodeId current\<rparr>],
                  step := Suc (step st)\<rparr>;
          st2 = st1\<lparr>closedSet := set_add (closedSet st1) (nodeId current)\<rparr>
      in case find (\<lambda>n. node_id n = nodeId current) (nodes (graph st)) of
           None \<Rightarrow> Some st2
         | Some cn \<Rightarrow>
             for_each (expandNeighbor targetNode meme mode cn current) st2
               (getNeighbors (graph st2) (nodeId current)))"

text \<open>The pairs the search follows: \<open>(u, v)\<close> when \<^const>\<open>getNeighbors\<close> of \<open>u\<close> has a node with id \<open>v\<close>.\<close>

definition neighbour_edges :: "Network \<Rightarrow> (string \<times> string) set" where
  "neighbour_edges network = {(u, v). v \<in> node_id ` set (getNeighbors network u)}"

text \<open>
  The paths in the queue visit no node twice, and all their nodes but the last are
  finalized. Every item weighs a power of (number of nodes + 1) that falls with the length
  of its path: an expansion replaces an item by at most one item per node, each with a
  longer path, so the total weight of the queue falls.
\<close>

definition paths_ok :: "AStarSearch \<Rightarrow> bool" where
  "paths_ok st =
     (\<forall>(f, e) \<in> set (openSet st).
        distinct (path e) \<and> set (path e) \<subseteq> node_id ` set (nodes (graph st)) \<and>
        set (path e) \<subseteq> insert (nodeId e) (set (closedSet st)))"

definition astar_weight :: "Network \<Rightarrow> JsNumber \<times> QItem \<Rightarrow> nat" where
  "astar_weight net x =
     (length (nodes net) + 1) ^ (card (node_id ` set (nodes net)) - length (path (snd x)))"

definition astar_measure :: "AStarSearch \<Rightarrow> nat" where
  "astar_measure st = sum_list (map (astar_weight (graph st)) (openSet st))"

text \<open>
  What holds at every head of the loop in a search from \<open>sid\<close>: finalized and queued nodes
  can be reached from \<open>sid\<close> along the pairs the search follows, every node with a
  \<open>gScore\<close> is finalized or queued, and so is \<open>sid\<close> and every neighbour of a finalized
  node whose id is no property name of \<^verbatim>\<open>Object.prototype\<close>.
\<close>

definition reach_inv :: "Network \<Rightarrow> string \<Rightarrow> AStarSearch \<Rightarrow> bool" where
  "reach_inv net sid st =
     (graph st = net \<and> distinct (closedSet st) \<and>
      set (closedSet st) \<subseteq> (neighbour_edges net)\<^sup>* `` {sid} \<and>
      queue_ids (openSet st) \<subseteq> (neighbour_edges net)\<^sup>* `` {sid} \<and>
      dom (gScores st) \<subseteq> set (closedSet st) \<union> queue_ids (openSet st) \<and>
      sid \<in> set (closedSet st) \<union> queue_ids (openSet st) \<and>
      (\<forall>u \<in> set (closedSet st). \<forall>v. (u, v) \<in> neighbour_edges net \<longrightarrow>
          v \<notin> set object_prototype_keys \<longrightarrow>
          v \<in> set (closedSet st) \<union> queue_ids (openSet st)))"

text \<open>
  The inner loop of both selectors ends because every iteration that selects nothing brings
  the flag of one more candidate up to date. In CELF++ a \<open>curBest\<close> that counts as true
  names a candidate of the queue while the queue is initialised, so the lookup succeeds.
\<close>

definition stale :: "Selection \<Rightarrow> nat" where
  "stale s = length (filter (\<lambda>u. flag u \<noteq> length (seeds s)) (Q s))"

definition curBest_ok :: "Selection \<Rightarrow> bool" where
  "curBest_ok s = (truthy (curBest s) \<longrightarrow> (\<exists>b \<in> set (Q s). Some (celf_nodeId b) = curBest s))"

text \<open>A graph of two components: \<open>s\<close> and \<open>x\<close> trust each other, \<open>t\<close> is alone.\<close>

definition net_split :: Network where
  "net_split = mk_network
     [mk_node ''s'' tech_worker 0 0 0 0 0 [(''x'', 0.5)],
      mk_node ''x'' tech_worker 0 0 0 0 0 [(''s'', 0.5)],
      mk_node ''t'' tech_worker 0 0 0 0 0 []]"

text \<open>The same graph with the node \<open>x\<close> named \<open>constructor\<close>.\<close>

definition net_constructor :: Network where
  "net_constructor = mk_network
     [mk_node ''s'' tech_worker 0 0 0 0 0 [(''constructor'', 0.5)],
      mk_node ''constructor'' tech_worker 0 0 0 0 0 [(''s'', 0.5)],
      mk_node ''t'' tech_worker 0 0 0 0 0 []]"

section \<open>Auxiliary facts about lists and sets kept as lists\<close>

lemma find_Some_mem: "find P xs = Some x \<Longrightarrow> x \<in> set xs \<and> P x"
  by (induction xs) (auto split: if_splits)

lemma set_add_new: "x \<notin> set s \<Longrightarrow> set_add s x = s @ [x]"
  by (simp add: set_add_def)

lemma set_set_add: "set (set_add s x) = insert x (set s)"
  by (auto simp: set_add_def)

lemma distinct_set_add: "distinct s \<Longrightarrow> distinct (set_add s x)"
  by (auto simp: set_add_def)

lemma sum_list_mset_cong:
  fixes f :: "'a \<Rightarrow> nat"
  shows "mset xs = mset ys \<Longrightarrow> sum_list (map f xs) = sum_list (map f ys)"
  by (metis mset_map sum_mset_sum_list)

lemma sum_list_const_le:
  fixes f :: "'a \<Rightarrow> nat"
  shows "(\<And>x. x \<in> set xs \<Longrightarrow> f x \<le> c) \<Longrightarrow> sum_list (map f xs) \<le> length xs * c"
  by (induction xs) (auto simp: add_mono)

lemma distinct_length_le_card:
  "distinct xs \<Longrightarrow> set xs \<subseteq> A \<Longrightarrow> finite A \<Longrightarrow> length xs \<le> card A"
  by (metis card_mono distinct_card)

lemma find_distinct_key:
  "distinct (map f xs) \<Longrightarrow> x \<in> set xs \<Longrightarrow> find (\<lambda>y. f y = f x) xs = Some x"
proof (induction xs)
  case Nil
  then show ?case by simp
next
  case (Cons a xs)
  show ?case
  proof (cases "a = x")
    case True
    then show ?thesis by simp
  next
    case False
    with Cons.prems have x: "x \<in> set xs" by simp
    then have "f x \<in> f ` set xs" by simp
    with Cons.prems(1) have "f a \<noteq> f x" by auto
    with Cons.IH Cons.prems(1) x show ?thesis by simp
  qed
qed

lemma trust_edges_iff:
  "(u, v) \<in> trust_edges net \<longleftrightarrow>
   (\<exists>un \<in> set (nodes net). node_id un = u \<and> v \<in> fst ` set (trust_network un) \<and>
      v \<in> node_id ` set (nodes net))"
  unfolding trust_edges_def by (simp add: Bex_def) blast

lemma js_get_Undefined: "js_get m k = Undefined \<longleftrightarrow> m k = None \<and> k \<notin> set object_prototype_keys"
  by (simp add: js_get_def split: option.splits)

lemma js_get_Own: "js_get m k = Own v \<longleftrightarrow> m k = Some v"
  by (simp add: js_get_def split: option.splits)

lemma js_get_Inherited: "js_get m k = Inherited \<longleftrightarrow> m k = None \<and> k \<in> set object_prototype_keys"
  by (simp add: js_get_def split: option.splits)

lemma dom_js_set:
  "m k \<noteq> None \<or> k \<notin> set object_prototype_keys \<Longrightarrow> dom (js_set m k v) = insert k (dom m)"
  by (auto simp: js_set_def object_prototype_keys_def)

lemma mset_insort_priority: "mset (insort_priority x ys) = add_mset x (mset ys)"
  by (induction ys) simp_all

lemma mset_sort_priority: "mset (sort_priority xs) = mset xs"
  by (induction xs) (simp_all add: sort_priority_def mset_insort_priority)

text \<open>On finite priorities \<^const>\<open>sort_priority\<close> is the stable sort by priority.\<close>

lemma insort_priority_Finite:
  "insort_priority (Finite p, x) (map (\<lambda>(q, y). (Finite q, y)) ys) =
   map (\<lambda>(q, y). (Finite q, y)) (insort_key fst (p, x) ys)"
  by (induction ys) (auto simp: not_less)

lemma sort_priority_Finite:
  "sort_priority (map (\<lambda>(q, y). (Finite q, y)) xs) = map (\<lambda>(q, y). (Finite q, y)) (sort_key fst xs)"
proof (induction xs)
  case Nil
  show ?case by (simp add: sort_priority_def)
next
  case (Cons a xs)
  obtain p x where a: "a = (p, x)" by (cases a)
  from Cons show ?case
    by (simp add: sort_priority_def a insort_priority_Finite sort_key_def)
qed

section \<open>The acceptance model: theorems\<close>

lemma clamp_mono: "a \<le> b \<Longrightarrow> clamp a lo hi \<le> clamp b lo hi"
  by (simp add: clamp_def max.coboundedI2 min.coboundedI2)

lemma clamp_range:
  fixes v :: real
  shows "lo \<le> hi \<Longrightarrow> lo \<le> max lo (min hi v) \<and> max lo (min hi v) \<le> hi"
  by auto

lemma clamp_scaled_le:
  fixes a k :: real
  assumes "0 \<le> k" "k \<le> 1" "lo \<le> hi" "0 \<le> lo"
  shows "max lo (min hi (a * k)) \<le> max lo (min hi a)"
proof (cases "0 \<le> a")
  case True
  then have "a * k \<le> a" using assms(2) by (simp add: mult_left_le)
  then show ?thesis by (auto simp: max_def min_def)
next
  case False
  then have "a * k \<le> 0" using assms(1) by (simp add: mult_nonpos_nonneg)
  then have "max lo (min hi (a * k)) = lo" using assms(3,4) by (auto simp: max_def min_def)
  then show ?thesis by simp
qed

text \<open>
  C1, as stated, fails: for a meme of source credibility 0 accepted over an edge of trust 1
  by a node it is aligned with, the code returns 0.3, and the formula with the
  credibility factor gives 0.21.
\<close>

theorem acceptance_credibility_counterexample:
  "calculateAcceptanceProbability (mk_node ''a'' tech_worker 0 0 0 0 0 []) (mk_meme 0 0 1 0 0 0)
     (mk_node ''a'' tech_worker 0 0 0 0 0 []) 1
   \<noteq> acceptanceProbability_spec (mk_node ''a'' tech_worker 0 0 0 0 0 []) (mk_meme 0 0 1 0 0 0)
     (mk_node ''a'' tech_worker 0 0 0 0 0 []) 1"
  by (simp add: calculateAcceptanceProbability_def acceptanceProbability_spec_def mk_node_def
      mk_meme_def clamp_def)

text \<open>
  C1, amended: \<^const>\<open>calculateAcceptanceProbability\<close> returns
  clamp(0.3 * trustWeight * alignmentScore * viralityBoost, 0.05, 0.95) with
  alignmentScore = (1 - |political_leaning - political_bias|) * (1 - criticalPenalty),
  criticalPenalty = critical_thinking * (1 - factual_accuracy) if factual_accuracy < 0.5
  and 0 otherwise, and viralityBoost = 1 + virality_factor * emotional_susceptibility.
  The source credibility of the meme does not enter: changing it changes nothing.
\<close>

theorem calculateAcceptanceProbability_formula:
  "calculateAcceptanceProbability node meme sourceNode trustWeight =
   clamp (0.3 * trustWeight *
          ((1 - \<bar>political_leaning (attributes node) - political_bias (meme_attributes meme)\<bar>) *
           (1 - (if factual_accuracy (meme_attributes meme) < 0.5
                 then critical_thinking (attributes node) * (1 - factual_accuracy (meme_attributes meme))
                 else 0))) *
          (1 + virality_factor (meme_attributes meme) * emotional_susceptibility (attributes node)))
     0.05 0.95 \<and>
   calculateAcceptanceProbability node
     (meme\<lparr>meme_attributes := (meme_attributes meme)\<lparr>source_credibility := c\<rparr>\<rparr>)
     sourceNode trustWeight =
   calculateAcceptanceProbability node meme sourceNode trustWeight"
  by (simp add: calculateAcceptanceProbability_def Let_def)

text \<open>
  C2, as stated, fails on the same input: the mode-B cost is 0.79, and one minus the
  acceptance probability is 0.7.
\<close>

theorem memeTrustCost_acceptance_counterexample:
  "calculateMemeTrustCost (mk_node ''a'' tech_worker 0 0 0 0 0 []) (mk_meme 0 0 1 0 0 0)
     (mk_node ''a'' tech_worker 0 0 0 0 0 []) 1
   \<noteq> 1 - calculateAcceptanceProbability (mk_node ''a'' tech_worker 0 0 0 0 0 []) (mk_meme 0 0 1 0 0 0)
     (mk_node ''a'' tech_worker 0 0 0 0 0 []) 1"
  by (simp add: calculateAcceptanceProbability_def calculateMemeTrustCost_def mk_node_def
      mk_meme_def clamp_def)

text \<open>
  For attributes in their documented ranges the two additional factors of the mode-B cost
  lie in [0, 1], so the clamped product is at most the acceptance probability.
\<close>

lemma memeTrustCost_ge_acceptance:
  assumes "node_in_range node" "meme_in_range meme"
  shows "1 - calculateAcceptanceProbability node meme sourceNode trustWeight
           \<le> calculateMemeTrustCost node meme sourceNode trustWeight \<and>
         (complexity (meme_attributes meme) = education_level (attributes node) \<and>
          source_credibility (meme_attributes meme) = 1 \<longrightarrow>
          calculateMemeTrustCost node meme sourceNode trustWeight =
            1 - calculateAcceptanceProbability node meme sourceNode trustWeight)"
proof -
  define a where "a = 0.3 * trustWeight *
          ((1 - \<bar>political_leaning (attributes node) - political_bias (meme_attributes meme)\<bar>) *
           (1 - (if factual_accuracy (meme_attributes meme) < 0.5
                 then critical_thinking (attributes node) * (1 - factual_accuracy (meme_attributes meme))
                 else 0))) *
          (1 + virality_factor (meme_attributes meme) * emotional_susceptibility (attributes node))"
  define cp where "cp = \<bar>complexity (meme_attributes meme) - education_level (attributes node)\<bar> * 0.3"
  define cf where "cf = 0.7 + source_credibility (meme_attributes meme) * 0.3"
  have arith: "b * w * (pa * ct * (1 - x)) * vb * y = b * w * (pa * ct) * vb * ((1 - x) * y)"
    for b w pa ct x vb y :: real by (simp add: mult_ac)
  have acc: "calculateAcceptanceProbability node meme sourceNode trustWeight = max 0.05 (min 0.95 a)"
    unfolding calculateAcceptanceProbability_def Let_def clamp_def a_def by (rule refl)
  have cst: "calculateMemeTrustCost node meme sourceNode trustWeight
                = 1 - max 0.05 (min 0.95 (a * ((1 - cp) * cf)))"
    unfolding calculateMemeTrustCost_def Let_def a_def cp_def cf_def by (simp only: arith)
  have cp: "0 \<le> cp" "cp \<le> 0.3"
    using assms by (auto simp: cp_def node_in_range_def meme_in_range_def abs_le_iff)
  have cf: "0.7 \<le> cf" "cf \<le> 1"
    using assms by (auto simp: cf_def meme_in_range_def)
  have k0: "0 \<le> (1 - cp) * cf" using cp cf by simp
  have "(1 - cp) * cf \<le> 1 * 1"
    by (rule mult_mono) (use cp cf in auto)
  then have k1: "(1 - cp) * cf \<le> 1" by simp
  have le: "max 0.05 (min 0.95 (a * ((1 - cp) * cf))) \<le> max 0.05 (min 0.95 a)"
    by (rule clamp_scaled_le[OF k0 k1]) simp_all
  have eq: "calculateMemeTrustCost node meme sourceNode trustWeight =
            1 - calculateAcceptanceProbability node meme sourceNode trustWeight"
    if "complexity (meme_attributes meme) = education_level (attributes node)"
       "source_credibility (meme_attributes meme) = 1"
  proof -
    have "(1 - cp) * cf = 1" using that by (simp add: cp_def cf_def)
    then show ?thesis by (simp add: acc cst)
  qed
  have ge: "1 - calculateAcceptanceProbability node meme sourceNode trustWeight
              \<le> calculateMemeTrustCost node meme sourceNode trustWeight"
    using le by (simp add: acc cst)
  from ge eq show ?thesis by blast
qed

text \<open>
  C2, amended: for every node, meme, source node and trust weight,
  \<^const>\<open>calculateMemeTrustCost\<close> returns
  1 - clamp(0.3 * trustWeight * alignmentScore * viralityBoost * credibilityFactor, 0.05, 0.95)
  with alignmentScore = (1 - |political_leaning - political_bias|) * (1 - criticalPenalty) *
  (1 - 0.3 * |complexity - education_level|), credibilityFactor = 0.7 + 0.3 * source_credibility,
  and criticalPenalty and viralityBoost as in the acceptance model: the product that the
  acceptance model clamps, multiplied by two more factors before clamping. For attributes
  in their documented ranges the cost is at least one minus the acceptance probability, and
  it is equal to it when complexity = education_level and source_credibility = 1.
\<close>

theorem calculateMemeTrustCost_vs_acceptance:
  "calculateMemeTrustCost node meme sourceNode trustWeight =
         1 - clamp (0.3 * trustWeight *
                    ((1 - \<bar>political_leaning (attributes node) - political_bias (meme_attributes meme)\<bar>) *
                     (1 - (if factual_accuracy (meme_attributes meme) < 0.5
                           then critical_thinking (attributes node) * (1 - factual_accuracy (meme_attributes meme))
                           else 0)) *
                     (1 - \<bar>complexity (meme_attributes meme) - education_level (attributes node)\<bar> * 0.3)) *
                    (1 + virality_factor (meme_attributes meme) * emotional_susceptibility (attributes node)) *
                    (0.7 + source_credibility (meme_attributes meme) * 0.3))
               0.05 0.95 \<and>
   (node_in_range node \<and> meme_in_range meme \<longrightarrow>
      1 - calculateAcceptanceProbability node meme sourceNode trustWeight
        \<le> calculateMemeTrustCost node meme sourceNode trustWeight \<and>
      (complexity (meme_attributes meme) = education_level (attributes node) \<and>
       source_credibility (meme_attributes meme) = 1 \<longrightarrow>
       calculateMemeTrustCost node meme sourceNode trustWeight =
         1 - calculateAcceptanceProbability node meme sourceNode trustWeight))"
proof -
  have formula: "calculateMemeTrustCost node meme sourceNode trustWeight =
         1 - clamp (0.3 * trustWeight *
                    ((1 - \<bar>political_leaning (attributes node) - political_bias (meme_attributes meme)\<bar>) *
                     (1 - (if factual_accuracy (meme_attributes meme) < 0.5
                           then critical_thinking (attributes node) * (1 - factual_accuracy (meme_attributes meme))
                           else 0)) *
                     (1 - \<bar>complexity (meme_attributes meme) - education_level (attributes node)\<bar> * 0.3)) *
                    (1 + virality_factor (meme_attributes meme) * emotional_susceptibility (attributes node)) *
                    (0.7 + source_credibility (meme_attributes meme) * 0.3))
               0.05 0.95"
    unfolding calculateMemeTrustCost_def Let_def clamp_def by (rule refl)
  from formula memeTrustCost_ge_acceptance[of node meme sourceNode trustWeight]
  show ?thesis by blast
qed

text \<open>An instance of C2 as amended, with complexity = education_level = 0.5 and source credibility 1.\<close>

theorem calculateMemeTrustCost_vs_acceptance_witness:
  "node_in_range (mk_node ''a'' tech_worker 0 0 0 0.5 0 []) \<and>
   meme_in_range (mk_meme 0 0 1 0.5 0 1) \<and>
   calculateMemeTrustCost (mk_node ''a'' tech_worker 0 0 0 0.5 0 []) (mk_meme 0 0 1 0.5 0 1)
     (mk_node ''a'' tech_worker 0 0 0 0.5 0 []) 1 =
   1 - calculateAcceptanceProbability (mk_node ''a'' tech_worker 0 0 0 0.5 0 [])
         (mk_meme 0 0 1 0.5 0 1) (mk_node ''a'' tech_worker 0 0 0 0.5 0 []) 1 \<and>
   calculateMemeTrustCost (mk_node ''a'' tech_worker 0 0 0 0.5 0 []) (mk_meme 0 0 1 0.5 0 1)
     (mk_node ''a'' tech_worker 0 0 0 0.5 0 []) 1 = 0.7"
proof -
  have a: "node_in_range (mk_node ''a'' tech_worker 0 0 0 0.5 0 [])"
    by (simp add: node_in_range_def mk_node_def)
  have b: "meme_in_range (mk_meme 0 0 1 0.5 0 1)"
    by (simp add: meme_in_range_def mk_meme_def)
  have c: "calculateAcceptanceProbability (mk_node ''a'' tech_worker 0 0 0 0.5 0 [])
             (mk_meme 0 0 1 0.5 0 1) (mk_node ''a'' tech_worker 0 0 0 0.5 0 []) 1 = 0.3"
    by (simp add: calculateAcceptanceProbability_def mk_node_def mk_meme_def clamp_def)
  have d: "complexity (meme_attributes (mk_meme 0 0 1 0.5 0 1)) =
             education_level (attributes (mk_node ''a'' tech_worker 0 0 0 0.5 0 []))"
          "source_credibility (meme_attributes (mk_meme 0 0 1 0.5 0 1)) = 1"
    by (simp_all add: mk_node_def mk_meme_def)
  from calculateMemeTrustCost_vs_acceptance[of "mk_node ''a'' tech_worker 0 0 0 0.5 0 []"
      "mk_meme 0 0 1 0.5 0 1" "mk_node ''a'' tech_worker 0 0 0 0.5 0 []" 1, THEN conjunct2]
    a b c d show ?thesis by simp
qed

text \<open>
  C4: \<^const>\<open>calculateSocialTrustCost\<close> lies in [0.05, 2.0] and
  \<^const>\<open>calculateMemeTrustCost\<close> in [0.05, 0.95]; in particular neither is zero or
  negative (and a \<^typ>\<open>real\<close> is finite). The final clamps give the bounds for all
  arguments, those in the documented ranges included.
\<close>

theorem edge_cost_bounds:
  "0.05 \<le> calculateSocialTrustCost sourceNode targetNode trustWeight \<and>
   calculateSocialTrustCost sourceNode targetNode trustWeight \<le> 2.0 \<and>
   0.05 \<le> calculateMemeTrustCost node meme sourceNode' trustWeight' \<and>
   calculateMemeTrustCost node meme sourceNode' trustWeight' \<le> 0.95"
proof -
  have a: "(0.05::real) \<le> 2.0" by simp
  have s: "0.05 \<le> calculateSocialTrustCost sourceNode targetNode trustWeight \<and>
           calculateSocialTrustCost sourceNode targetNode trustWeight \<le> 2.0"
    unfolding calculateSocialTrustCost_def Let_def by (rule clamp_range[OF a])
  obtain x where x: "calculateMemeTrustCost node meme sourceNode' trustWeight' = 1 - max 0.05 (min 0.95 x)"
    unfolding calculateMemeTrustCost_def Let_def by blast
  have m: "0.05 \<le> calculateMemeTrustCost node meme sourceNode' trustWeight' \<and>
           calculateMemeTrustCost node meme sourceNode' trustWeight' \<le> 0.95"
    unfolding x by (simp add: max_def min_def)
  from s m show ?thesis by blast
qed

text \<open>
  C10: for a node and a meme with attributes in their documented ranges,
  \<^const>\<open>calculateTransmissionProbability\<close> does not increase with \<open>daysSinceInfected\<close>:
  for \<open>0 \<le> d1 \<le> d2\<close> its value at \<open>d2\<close> is at most its value at \<open>d1\<close>; and from 4.9
  days on it is constant (the novelty factor stays at its floor 0.3).
\<close>

theorem transmission_antitone_in_days:
  assumes "node_in_range node" "meme_in_range meme" "0 \<le> d1" "d1 \<le> d2"
  shows "calculateTransmissionProbability node meme d2 \<le> calculateTransmissionProbability node meme d1 \<and>
         (4.9 \<le> d1 \<longrightarrow>
          calculateTransmissionProbability node meme d2 = calculateTransmissionProbability node meme d1)"
proof -
  let ?k = "social_activity (attributes node) * virality_factor (meme_attributes meme) *
            (1 + emotional_intensity (meme_attributes meme) * 0.5)"
  have k: "0 \<le> ?k" using assms(1,2) by (simp add: node_in_range_def meme_in_range_def)
  have nov: "max 0.3 (1 - d2 / 7) \<le> max 0.3 (1 - d1 / 7)" using assms(4) by simp
  have "?k * max 0.3 (1 - d2 / 7) \<le> ?k * max 0.3 (1 - d1 / 7)"
    by (rule mult_left_mono[OF nov k])
  then have mono: "calculateTransmissionProbability node meme d2 \<le> calculateTransmissionProbability node meme d1"
    unfolding calculateTransmissionProbability_def Let_def by (rule clamp_mono)
  have "4.9 \<le> d1 \<Longrightarrow> max 0.3 (1 - d2 / 7) = max 0.3 (1 - d1 / 7)" using assms(4) by simp
  then have "4.9 \<le> d1 \<Longrightarrow>
      calculateTransmissionProbability node meme d2 = calculateTransmissionProbability node meme d1"
    unfolding calculateTransmissionProbability_def Let_def by presburger
  with mono show ?thesis by blast
qed

text \<open>An instance of C10: day 5 and day 6, both past 4.9, where the value is 0.3.\<close>

theorem transmission_antitone_in_days_witness:
  "node_in_range (mk_node ''a'' tech_worker 0 0 0 0 1 []) \<and> meme_in_range (mk_meme 0 0 1 0 1 0) \<and>
   calculateTransmissionProbability (mk_node ''a'' tech_worker 0 0 0 0 1 []) (mk_meme 0 0 1 0 1 0) 6
     \<le> calculateTransmissionProbability (mk_node ''a'' tech_worker 0 0 0 0 1 []) (mk_meme 0 0 1 0 1 0) 5 \<and>
   calculateTransmissionProbability (mk_node ''a'' tech_worker 0 0 0 0 1 []) (mk_meme 0 0 1 0 1 0) 6
     = calculateTransmissionProbability (mk_node ''a'' tech_worker 0 0 0 0 1 []) (mk_meme 0 0 1 0 1 0) 5 \<and>
   calculateTransmissionProbability (mk_node ''a'' tech_worker 0 0 0 0 1 []) (mk_meme 0 0 1 0 1 0) 5 = 0.3"
proof -
  have a: "node_in_range (mk_node ''a'' tech_worker 0 0 0 0 1 [])"
    by (simp add: node_in_range_def mk_node_def)
  have b: "meme_in_range (mk_meme 0 0 1 0 1 0)"
    by (simp add: meme_in_range_def mk_meme_def)
  have c: "calculateTransmissionProbability (mk_node ''a'' tech_worker 0 0 0 0 1 [])
             (mk_meme 0 0 1 0 1 0) 5 = 0.3"
    by (simp add: calculateTransmissionProbability_def mk_node_def mk_meme_def clamp_def)
  from transmission_antitone_in_days[OF a b, of 5 6] a b c show ?thesis by simp
qed

section \<open>The pathfinder: theorems\<close>

text \<open>
  C6: when the source id or the target id is the id of no node of the network,
  \<^const>\<open>astarInfluencePath\<close> returns at once, with \<open>success = false\<close>, an empty path,
  \<open>exploredCount = 0\<close> and no frame (and cost \<open>Infinity\<close>); the graph is as it was.
\<close>

theorem astar_unknown_id_fails:
  assumes "sid \<notin> node_id ` set (nodes net) \<or> tid \<notin> node_id ` set (nodes net)"
  shows "\<exists>r. astarInfluencePath net sid tid meme mode = Some (r, net) \<and> \<not> success r \<and>
             result_path r = [] \<and> cost r = Infinity \<and> exploredCount r = 0 \<and> result_frames r = []"
proof -
  have "find (\<lambda>n. node_id n = sid) (nodes net) = None \<or>
        find (\<lambda>n. node_id n = tid) (nodes net) = None"
    using assms by (auto simp: find_None_iff)
  then have "astarInfluencePath net sid tid meme mode = Some (failure mode 0 [], net)"
    by (auto simp: astarInfluencePath_def split: option.splits)
  then show ?thesis by (simp add: failure_def)
qed

text \<open>An instance of C6: a source id that \<open>net2\<close> does not have.\<close>

theorem astar_unknown_id_fails_witness:
  "''zz'' \<notin> node_id ` set (nodes net2) \<and>
   (\<exists>r. astarInfluencePath net2 ''zz'' ''a'' (mk_meme 0 0 1 0 0 0) meme_trust = Some (r, net2) \<and>
        \<not> success r \<and> result_path r = [] \<and> cost r = Infinity \<and> exploredCount r = 0 \<and>
        result_frames r = [])"
proof -
  have h: "''zz'' \<notin> node_id ` set (nodes net2)"
    by (simp add: net2_def mk_network_def mk_node_def)
  from astar_unknown_id_fails[of "''zz''" net2 "''a''", OF disjI1, OF h] h show ?thesis by blast
qed

lemma astar_loop_empty:
  "openSet st = [] \<Longrightarrow>
   astar_loop tid tn meme mode st = Some (failure mode (length (closedSet st)) (frames st), graph st)"
  by (subst astar_loop.simps) simp

lemma astar_loop_next:
  "openSet st = (p, cur) # rest \<Longrightarrow> nodeId cur \<noteq> tid \<Longrightarrow>
   astar_loop tid tn meme mode st =
   Option.bind (astar_next tn meme mode st cur rest) (astar_loop tid tn meme mode)"
  by (subst astar_loop.simps) (simp add: astar_next_def Let_def split: option.splits)

text \<open>
  The body of the inner loop does not throw on a neighbour that \<^const>\<open>getNeighbors\<close>
  reports: it leaves the state as it is, or queues the neighbour.
\<close>

lemma expandNeighbor_cases:
  assumes "js_get (map_of (trust_network cn)) (node_id nb) \<noteq> Undefined"
  shows "expandNeighbor tn meme mode cn cur st nb = Some st \<or>
   (node_id nb \<notin> set (closedSet st) \<and>
    (\<exists>f g st'. expandNeighbor tn meme mode cn cur st nb = Some st' \<and>
       openSet st' = pq_push f \<lparr>nodeId = node_id nb, path = path cur @ [node_id nb], gScore = g\<rparr> (openSet st) \<and>
       dom (gScores st') = insert (node_id nb) (dom (gScores st)) \<and>
       closedSet st' = closedSet st \<and> graph st' = graph st))"
proof (cases "node_id nb \<in> set (closedSet st)")
  case True
  then show ?thesis by (simp add: expandNeighbor_def)
next
  case notclosed: False
  show ?thesis
  proof (cases "js_get (map_of (trust_network cn)) (node_id nb)")
    case Undefined
    with assms show ?thesis by simp
  next
    case Inherited
    then have "node_id nb \<in> set object_prototype_keys" by (simp add: js_get_Inherited)
    then have "js_get (gScores st) (node_id nb) \<noteq> Undefined" by (simp add: js_get_Undefined)
    with notclosed Inherited show ?thesis by (simp add: expandNeighbor_def)
  next
    case (Own w)
    show ?thesis
    proof (cases "js_get (gScores st) (node_id nb)")
      case Undefined
      then have "node_id nb \<notin> set object_prototype_keys" by (simp add: js_get_Undefined)
      then have "dom (js_set (gScores st) (node_id nb) g) = insert (node_id nb) (dom (gScores st))" for g
        by (simp add: dom_js_set)
      with notclosed Own Undefined show ?thesis by (auto simp: expandNeighbor_def Let_def)
    next
      case Inherited
      with notclosed Own show ?thesis by (simp add: expandNeighbor_def Let_def)
    next
      case known: (Own g0)
      then have "gScores st (node_id nb) \<noteq> None" by (simp add: js_get_Own)
      then have "dom (js_set (gScores st) (node_id nb) g) = insert (node_id nb) (dom (gScores st))" for g
        by (simp add: dom_js_set)
      with notclosed Own known show ?thesis by (auto simp: expandNeighbor_def Let_def)
    qed
  qed
qed

lemma expandNeighbor_dom:
  assumes "node_id nb \<notin> set (closedSet st)"
    and "js_get (map_of (trust_network cn)) (node_id nb) \<noteq> Undefined"
    and "node_id nb \<notin> set object_prototype_keys"
  shows "\<exists>st'. expandNeighbor tn meme mode cn cur st nb = Some st' \<and> node_id nb \<in> dom (gScores st')"
proof -
  from assms(2,3) obtain w where w: "js_get (map_of (trust_network cn)) (node_id nb) = Own w"
    by (cases "js_get (map_of (trust_network cn)) (node_id nb)") (simp_all add: js_get_Inherited)
  have set: "dom (js_set (gScores st) (node_id nb) g) = insert (node_id nb) (dom (gScores st))" for g
    using assms(3) by (simp add: dom_js_set)
  show ?thesis
  proof (cases "js_get (gScores st) (node_id nb)")
    case Undefined
    with assms(1) w set show ?thesis by (simp add: expandNeighbor_def Let_def)
  next
    case Inherited
    with assms(3) show ?thesis by (simp add: js_get_Inherited)
  next
    case (Own g0)
    then have "node_id nb \<in> dom (gScores st)" by (auto simp: js_get_Own)
    with assms(1) w set Own show ?thesis by (simp add: expandNeighbor_def Let_def)
  qed
qed

lemma mset_pq_push: "mset (pq_push f e q) = mset q + {#(f, e)#}"
  by (simp add: pq_push_def mset_sort_priority)

lemma for_each_expandNeighbor:
  assumes "\<forall>nb \<in> set nbs. js_get (map_of (trust_network cn)) (node_id nb) \<noteq> Undefined"
  shows "\<exists>st' new. for_each (expandNeighbor tn meme mode cn cur) st nbs = Some st' \<and>
     mset (openSet st') = mset (openSet st) + mset new \<and>
     length new \<le> length nbs \<and>
     (\<forall>(f, e) \<in> set new. nodeId e \<in> node_id ` set nbs \<and> nodeId e \<notin> set (closedSet st) \<and>
                          path e = path cur @ [nodeId e]) \<and>
     dom (gScores st') = dom (gScores st) \<union> queue_ids new \<and>
     closedSet st' = closedSet st \<and> graph st' = graph st"
  using assms
proof (induction nbs arbitrary: st)
  case Nil
  show ?case by (intro exI[of _ st] exI[of _ "[]"]) (simp add: queue_ids_def)
next
  case (Cons nb nbs)
  let ?X = "expandNeighbor tn meme mode cn cur"
  from Cons.prems have nb: "js_get (map_of (trust_network cn)) (node_id nb) \<noteq> Undefined"
    and rest: "\<forall>nb \<in> set nbs. js_get (map_of (trust_network cn)) (node_id nb) \<noteq> Undefined"
    by simp_all
  from expandNeighbor_cases[OF nb, of tn meme mode cur st] consider
    (same) "?X st nb = Some st"
  | (push) f g s1 where "node_id nb \<notin> set (closedSet st)" "?X st nb = Some s1"
      "openSet s1 = pq_push f \<lparr>nodeId = node_id nb, path = path cur @ [node_id nb], gScore = g\<rparr> (openSet st)"
      "dom (gScores s1) = insert (node_id nb) (dom (gScores st))"
      "closedSet s1 = closedSet st" "graph s1 = graph st"
    by blast
  then show ?case
  proof cases
    case same
    from Cons.IH[OF rest, of st] obtain st' new where new:
      "for_each ?X st nbs = Some st'"
      "mset (openSet st') = mset (openSet st) + mset new"
      "length new \<le> length nbs"
      "\<forall>(f, e) \<in> set new. nodeId e \<in> node_id ` set nbs \<and> nodeId e \<notin> set (closedSet st) \<and>
                          path e = path cur @ [nodeId e]"
      "dom (gScores st') = dom (gScores st) \<union> queue_ids new"
      "closedSet st' = closedSet st" "graph st' = graph st"
      by blast
    show ?thesis using new same
      by (intro exI[of _ st'] exI[of _ new]) auto
  next
    case push
    from Cons.IH[OF rest, of s1] obtain st' new where new:
      "for_each ?X s1 nbs = Some st'"
      "mset (openSet st') = mset (openSet s1) + mset new"
      "length new \<le> length nbs"
      "\<forall>(f, e) \<in> set new. nodeId e \<in> node_id ` set nbs \<and> nodeId e \<notin> set (closedSet s1) \<and>
                          path e = path cur @ [nodeId e]"
      "dom (gScores st') = dom (gScores s1) \<union> queue_ids new"
      "closedSet st' = closedSet s1" "graph st' = graph s1"
      by blast
    let ?e = "(f, \<lparr>nodeId = node_id nb, path = path cur @ [node_id nb], gScore = g\<rparr>)"
    show ?thesis using new push
      by (intro exI[of _ st'] exI[of _ "?e # new"]) (auto simp: queue_ids_def mset_pq_push)
  qed
qed

lemma for_each_expandNeighbor_dom:
  assumes "\<forall>nb \<in> set nbs. js_get (map_of (trust_network cn)) (node_id nb) \<noteq> Undefined"
    and "nb \<in> set nbs" "node_id nb \<notin> set (closedSet st)"
    and "node_id nb \<notin> set object_prototype_keys"
    and "for_each (expandNeighbor tn meme mode cn cur) st nbs = Some st'"
  shows "node_id nb \<in> dom (gScores st')"
  using assms
proof (induction nbs arbitrary: st)
  case Nil
  then show ?case by simp
next
  case (Cons a nbs)
  let ?X = "expandNeighbor tn meme mode cn cur"
  from Cons.prems(1) have a: "js_get (map_of (trust_network cn)) (node_id a) \<noteq> Undefined"
    and rest: "\<forall>nb \<in> set nbs. js_get (map_of (trust_network cn)) (node_id nb) \<noteq> Undefined"
    by simp_all
  from expandNeighbor_cases[OF a, of tn meme mode cur st] obtain s1 where
    s1: "?X st a = Some s1" "closedSet s1 = closedSet st" by auto
  with Cons.prems(5) have run: "for_each ?X s1 nbs = Some st'" by simp
  show ?case
  proof (cases "nb \<in> set nbs")
    case True
    show ?thesis
      by (rule Cons.IH[OF rest True _ Cons.prems(4) run]) (simp add: s1(2) Cons.prems(3))
  next
    case False
    then have "a = nb" using Cons.prems(2) by simp
    with expandNeighbor_dom[OF Cons.prems(3) _ Cons.prems(4), of cn tn meme mode cur] a s1(1)
    have "node_id nb \<in> dom (gScores s1)" by auto
    moreover have "dom (gScores s1) \<subseteq> dom (gScores st')"
      using for_each_expandNeighbor[OF rest, of tn meme mode cur s1] run by auto
    ultimately show ?thesis by auto
  qed
qed

lemma getNeighbors_trust:
  "find (\<lambda>n. node_id n = u) (nodes net) = Some cn \<Longrightarrow> nb \<in> set (getNeighbors net u) \<Longrightarrow>
   js_get (map_of (trust_network cn)) (node_id nb) \<noteq> Undefined \<and> nb \<in> set (nodes net)"
  by (simp add: getNeighbors_def)

lemma getNeighbors_length: "length (getNeighbors net u) \<le> length (nodes net)"
  by (simp add: getNeighbors_def split: option.splits)

lemma getNeighbors_None:
  "find (\<lambda>n. node_id n = u) (nodes net) = None \<Longrightarrow> getNeighbors net u = []"
  by (simp add: getNeighbors_def)

text \<open>An iteration of the loop that does not return does not throw either.\<close>

lemma astar_next_effect:
  "\<exists>st' new. astar_next tn meme mode st cur rest = Some st' \<and>
     mset (openSet st') = mset rest + mset new \<and>
     length new \<le> length (nodes (graph st)) \<and>
     (\<forall>(f, e) \<in> set new. (nodeId cur, nodeId e) \<in> neighbour_edges (graph st) \<and>
                          nodeId e \<notin> insert (nodeId cur) (set (closedSet st)) \<and>
                          path e = path cur @ [nodeId e]) \<and>
     dom (gScores st') = dom (gScores st) \<union> queue_ids new \<and>
     closedSet st' = set_add (closedSet st) (nodeId cur) \<and>
     graph st' = graph st \<and>
     (\<forall>v. (nodeId cur, v) \<in> neighbour_edges (graph st) \<longrightarrow> v \<notin> set object_prototype_keys \<longrightarrow>
          v \<in> insert (nodeId cur) (set (closedSet st)) \<union> dom (gScores st'))"
proof (cases "find (\<lambda>n. node_id n = nodeId cur) (nodes (graph st))")
  case None
  then have "getNeighbors (graph st) (nodeId cur) = []" by (rule getNeighbors_None)
  then have "\<And>v. (nodeId cur, v) \<notin> neighbour_edges (graph st)" by (simp add: neighbour_edges_def)
  with None show ?thesis
    by (intro exI[of _ "the (astar_next tn meme mode st cur rest)"] exI[of _ "[]"])
       (simp add: astar_next_def Let_def queue_ids_def)
next
  case (Some cn)
  define st2 where "st2 = st\<lparr>openSet := rest,
                  frames := frames st @
                    [\<lparr>frame_step = step st, frame_currentNode = nodeId cur,
                      frame_openSet = [], frame_closedSet = closedSet st,
                      frame_path = path cur, frame_gScores = gScores st,
                      frame_fScores = fScores st,
                      frame_message = ''Exploring node '' @ nodeId cur\<rparr>],
                  step := Suc (step st),
                  closedSet := set_add (closedSet st) (nodeId cur)\<rparr>"
  define nbs where "nbs = getNeighbors (graph st) (nodeId cur)"
  let ?X = "expandNeighbor tn meme mode cn cur"
  have nxt: "astar_next tn meme mode st cur rest = for_each ?X st2 nbs"
    by (simp add: astar_next_def Let_def Some st2_def nbs_def)
  have st2: "openSet st2 = rest" "gScores st2 = gScores st" "graph st2 = graph st"
    "closedSet st2 = set_add (closedSet st) (nodeId cur)"
    by (simp_all add: st2_def)
  have trusted: "\<forall>nb \<in> set nbs. js_get (map_of (trust_network cn)) (node_id nb) \<noteq> Undefined"
    using getNeighbors_trust[OF Some] by (simp add: nbs_def)
  from for_each_expandNeighbor[OF trusted, of tn meme mode cur st2] obtain st' new where new:
    "for_each ?X st2 nbs = Some st'"
    "mset (openSet st') = mset (openSet st2) + mset new"
    "length new \<le> length nbs"
    "\<forall>(f, e) \<in> set new. nodeId e \<in> node_id ` set nbs \<and> nodeId e \<notin> set (closedSet st2) \<and>
                          path e = path cur @ [nodeId e]"
    "dom (gScores st') = dom (gScores st2) \<union> queue_ids new"
    "closedSet st' = closedSet st2"
    "graph st' = graph st2"
    by blast
  have len: "length new \<le> length (nodes (graph st))"
    using new(3) getNeighbors_length[of "graph st" "nodeId cur"] by (simp add: nbs_def)
  have edges: "(nodeId cur, v) \<in> neighbour_edges (graph st) \<longleftrightarrow> v \<in> node_id ` set nbs" for v
    by (simp add: neighbour_edges_def nbs_def)
  have children: "\<forall>(f, e) \<in> set new. (nodeId cur, nodeId e) \<in> neighbour_edges (graph st) \<and>
                          nodeId e \<notin> insert (nodeId cur) (set (closedSet st)) \<and>
                          path e = path cur @ [nodeId e]"
    using new(4) by (auto simp: edges st2(4) set_set_add)
  have closure: "v \<in> insert (nodeId cur) (set (closedSet st)) \<union> dom (gScores st')"
    if "(nodeId cur, v) \<in> neighbour_edges (graph st)" "v \<notin> set object_prototype_keys" for v
  proof (cases "v \<in> insert (nodeId cur) (set (closedSet st))")
    case True
    then show ?thesis by blast
  next
    case False
    from that(1) obtain nb where nb: "nb \<in> set nbs" "v = node_id nb" by (auto simp: edges)
    have "node_id nb \<notin> set (closedSet st2)"
      using False nb(2) by (simp add: st2(4) set_set_add)
    moreover have "node_id nb \<notin> set object_prototype_keys" using that(2) nb(2) by simp
    ultimately have "node_id nb \<in> dom (gScores st')"
      using for_each_expandNeighbor_dom[OF trusted nb(1) _ _ new(1)] by blast
    then show ?thesis using nb(2) by simp
  qed
  show ?thesis
    unfolding nxt using new(1,2,5,6,7) len children closure
    by (intro exI[of _ st'] exI[of _ new]) (simp add: st2)
qed

lemma neighbour_edges_ids: "(u, v) \<in> neighbour_edges net \<Longrightarrow> v \<in> node_id ` set (nodes net)"
  by (auto simp: neighbour_edges_def getNeighbors_def split: option.splits)

lemma astar_next_paths_ok:
  assumes "paths_ok st" "openSet st = (p, cur) # rest"
    and nxt: "astar_next tn meme mode st cur rest = Some st'"
  shows "paths_ok st'"
proof -
  from astar_next_effect[of tn meme mode st cur rest] nxt obtain new where new:
    "mset (openSet st') = mset rest + mset new"
    "\<forall>(f, e) \<in> set new. (nodeId cur, nodeId e) \<in> neighbour_edges (graph st) \<and>
                          nodeId e \<notin> insert (nodeId cur) (set (closedSet st)) \<and>
                          path e = path cur @ [nodeId e]"
    "closedSet st' = set_add (closedSet st) (nodeId cur)"
    "graph st' = graph st"
    by auto
  have set': "set (openSet st') = set rest \<union> set new"
    using new(1) by (metis set_mset_mset set_mset_union)
  have cur: "distinct (path cur)" "set (path cur) \<subseteq> node_id ` set (nodes (graph st))"
    "set (path cur) \<subseteq> insert (nodeId cur) (set (closedSet st))"
    using assms(1,2) by (auto simp: paths_ok_def)
  have "distinct (path e) \<and> set (path e) \<subseteq> node_id ` set (nodes (graph st)) \<and>
        set (path e) \<subseteq> insert (nodeId e) (insert (nodeId cur) (set (closedSet st)))"
    if "(f, e) \<in> set rest \<union> set new" for f e
  proof (cases "(f, e) \<in> set rest")
    case True
    then show ?thesis using assms(1,2) by (auto simp: paths_ok_def)
  next
    case False
    with that have "(f, e) \<in> set new" by simp
    with new(2) have e: "(nodeId cur, nodeId e) \<in> neighbour_edges (graph st)"
      "nodeId e \<notin> insert (nodeId cur) (set (closedSet st))" "path e = path cur @ [nodeId e]"
      by auto
    show ?thesis using e cur neighbour_edges_ids[OF e(1)] by auto
  qed
  then show ?thesis
    unfolding paths_ok_def set' new(3) new(4) set_set_add by blast
qed

lemma astar_next_measure:
  assumes "paths_ok st" "openSet st = (p, cur) # rest"
    and nxt: "astar_next tn meme mode st cur rest = Some st'"
  shows "astar_measure st' < astar_measure st"
proof -
  let ?net = "graph st"
  let ?B = "length (nodes ?net) + 1"
  let ?N = "card (node_id ` set (nodes ?net))"
  from astar_next_effect[of tn meme mode st cur rest] nxt obtain new where new:
    "mset (openSet st') = mset rest + mset new"
    "length new \<le> length (nodes ?net)"
    "\<forall>(f, e) \<in> set new. (nodeId cur, nodeId e) \<in> neighbour_edges ?net \<and>
                          nodeId e \<notin> insert (nodeId cur) (set (closedSet st)) \<and>
                          path e = path cur @ [nodeId e]"
    "graph st' = ?net"
    by auto
  have "mset (openSet st') = mset (rest @ new)" using new(1) by simp
  then have m': "astar_measure st' =
      sum_list (map (astar_weight ?net) rest) + sum_list (map (astar_weight ?net) new)"
    unfolding astar_measure_def new(4) by (simp add: sum_list_mset_cong[of "openSet st'" "rest @ new"])
  have m: "astar_measure st = ?B ^ (?N - length (path cur)) + sum_list (map (astar_weight ?net) rest)"
    by (simp add: astar_measure_def assms(2) astar_weight_def)
  have cur: "distinct (path cur)" "set (path cur) \<subseteq> node_id ` set (nodes ?net)"
    "set (path cur) \<subseteq> insert (nodeId cur) (set (closedSet st))"
    using assms(1,2) by (auto simp: paths_ok_def)
  have "sum_list (map (astar_weight ?net) new) < ?B ^ (?N - length (path cur))"
  proof (cases new)
    case Nil
    then show ?thesis by simp
  next
    case (Cons x xs)
    obtain f e where x: "x = (f, e)" by (cases x)
    with Cons new(3) have e: "(nodeId cur, nodeId e) \<in> neighbour_edges ?net"
      "nodeId e \<notin> insert (nodeId cur) (set (closedSet st))" by auto
    have "distinct (path cur @ [nodeId e])" "set (path cur @ [nodeId e]) \<subseteq> node_id ` set (nodes ?net)"
      using cur e neighbour_edges_ids[OF e(1)] by auto
    then have "length (path cur @ [nodeId e]) \<le> ?N"
      by (intro distinct_length_le_card) auto
    then have lt: "length (path cur) < ?N" by simp
    have w: "astar_weight ?net y \<le> ?B ^ (?N - length (path cur) - 1)" if "y \<in> set new" for y
      using new(3) that by (cases y) (auto simp: astar_weight_def)
    have "sum_list (map (astar_weight ?net) new) \<le> length new * ?B ^ (?N - length (path cur) - 1)"
      by (rule sum_list_const_le) (rule w)
    also have "\<dots> \<le> length (nodes ?net) * ?B ^ (?N - length (path cur) - 1)"
      using new(2) by simp
    also have "\<dots> < ?B * ?B ^ (?N - length (path cur) - 1)"
      by simp
    also have "\<dots> = ?B ^ (?N - length (path cur))"
    proof -
      from lt obtain k where k: "?N - length (path cur) = Suc k" by (metis Suc_diff_Suc)
      show ?thesis unfolding k by simp
    qed
    finally show ?thesis .
  qed
  then show ?thesis using m m' by simp
qed

lemma astar_loop_rule:
  assumes "paths_ok st" "I st"
    and pres: "\<And>st p cur rest st'. I st \<Longrightarrow> paths_ok st \<Longrightarrow> openSet st = (p, cur) # rest \<Longrightarrow>
                 nodeId cur \<noteq> tid \<Longrightarrow> astar_next tn meme mode st cur rest = Some st' \<Longrightarrow> I st'"
  shows "\<exists>r st'. astar_loop tid tn meme mode st = Some (r, graph st) \<and> I st' \<and> paths_ok st' \<and>
           graph st' = graph st \<and>
           (case openSet st' of
              [] \<Rightarrow> r = failure mode (length (closedSet st')) (frames st')
            | x # rest \<Rightarrow> nodeId (snd x) = tid \<and> success r \<and> result_path r = path (snd x) \<and>
                          cost r = Finite (gScore (snd x)))"
  using assms(1,2)
proof (induction "astar_measure st" arbitrary: st rule: less_induct)
  case less
  show ?case
  proof (cases "openSet st")
    case Nil
    then show ?thesis using less.prems astar_loop_empty[OF Nil]
      by (intro exI[of _ "failure mode (length (closedSet st)) (frames st)"] exI[of _ st]) simp
  next
    case (Cons x rest)
    obtain p cur where x: "x = (p, cur)" by (cases x)
    show ?thesis
    proof (cases "nodeId cur = tid")
      case True
      define r where "r = \<lparr>success = True, result_path = path cur, cost = Finite (gScore cur),
               exploredCount = length (closedSet st),
               result_frames = frames st @
                          [\<lparr>frame_step = step st, frame_currentNode = nodeId cur,
                            frame_openSet = [], frame_closedSet = closedSet st,
                            frame_path = path cur, frame_gScores = gScores st,
                            frame_fScores = fScores st,
                            frame_message = ''Exploring node '' @ nodeId cur\<rparr>],
               result_mode = mode,
               result_pathExplanations = Some (pathExplanations st)\<rparr>"
      have run: "astar_loop tid tn meme mode st = Some (r, graph st)"
        by (subst astar_loop.simps) (simp add: Cons x True Let_def r_def)
      have r: "success r" "result_path r = path cur" "cost r = Finite (gScore cur)"
        by (simp_all add: r_def)
      show ?thesis using less.prems run r True
        by (intro exI[of _ r] exI[of _ st]) (simp add: Cons x)
    next
      case False
      have o: "openSet st = (p, cur) # rest" using Cons x by simp
      from astar_next_effect[of tn meme mode st cur rest] obtain st1 where
        nxt: "astar_next tn meme mode st cur rest = Some st1" and g: "graph st1 = graph st"
        by blast
      have 1: "astar_measure st1 < astar_measure st"
        by (rule astar_next_measure[OF less.prems(1) o nxt])
      have 2: "paths_ok st1" by (rule astar_next_paths_ok[OF less.prems(1) o nxt])
      have 3: "I st1" by (rule pres[OF less.prems(2,1) o False nxt])
      have step: "astar_loop tid tn meme mode st = astar_loop tid tn meme mode st1"
        by (simp add: astar_loop_next[OF o False] nxt)
      from less.hyps[OF 1 2 3] show ?thesis
        unfolding step g .
    qed
  qed
qed

lemma astar_next_reach_inv:
  assumes inv: "reach_inv net sid st" and o: "openSet st = (p, cur) # rest"
    and nxt: "astar_next tn meme mode st cur rest = Some st'"
  shows "reach_inv net sid st'"
proof -
  let ?R = "(neighbour_edges net)\<^sup>* `` {sid}"
  let ?u = "nodeId cur"
  from inv have g: "graph st = net" and d: "distinct (closedSet st)"
    and cR: "set (closedSet st) \<subseteq> ?R" and qR: "queue_ids (openSet st) \<subseteq> ?R"
    and dom: "dom (gScores st) \<subseteq> set (closedSet st) \<union> queue_ids (openSet st)"
    and s: "sid \<in> set (closedSet st) \<union> queue_ids (openSet st)"
    and cl: "\<And>u v. u \<in> set (closedSet st) \<Longrightarrow> (u, v) \<in> neighbour_edges net \<Longrightarrow>
               v \<notin> set object_prototype_keys \<Longrightarrow> v \<in> set (closedSet st) \<union> queue_ids (openSet st)"
    by (auto simp: reach_inv_def)
  from astar_next_effect[of tn meme mode st cur rest] nxt obtain new where new:
    "mset (openSet st') = mset rest + mset new"
    "\<forall>(f, e) \<in> set new. (?u, nodeId e) \<in> neighbour_edges (graph st) \<and>
                          nodeId e \<notin> insert ?u (set (closedSet st)) \<and>
                          path e = path cur @ [nodeId e]"
    "dom (gScores st') = dom (gScores st) \<union> queue_ids new"
    "closedSet st' = set_add (closedSet st) ?u"
    "graph st' = graph st"
    "\<forall>v. (?u, v) \<in> neighbour_edges (graph st) \<longrightarrow> v \<notin> set object_prototype_keys \<longrightarrow>
          v \<in> insert ?u (set (closedSet st)) \<union> dom (gScores st')"
    by auto
  have "set (openSet st') = set rest \<union> set new"
    using new(1) by (metis set_mset_mset set_mset_union)
  then have q': "queue_ids (openSet st') = queue_ids rest \<union> queue_ids new"
    by (auto simp: queue_ids_def)
  have q: "queue_ids (openSet st) = insert ?u (queue_ids rest)"
    by (simp add: o queue_ids_def)
  have c': "set (closedSet st') = insert ?u (set (closedSet st))"
    by (simp add: new(4) set_set_add)
  have uR: "?u \<in> ?R" using qR q by simp
  have newR: "queue_ids new \<subseteq> ?R"
  proof
    fix v assume "v \<in> queue_ids new"
    then obtain f e where "(f, e) \<in> set new" "v = nodeId e" by (auto simp: queue_ids_def)
    with new(2) have "(?u, v) \<in> neighbour_edges net" by (auto simp: g)
    with uR show "v \<in> ?R" by (auto intro: rtrancl_into_rtrancl)
  qed
  have grow: "set (closedSet st) \<union> queue_ids (openSet st) \<subseteq> set (closedSet st') \<union> queue_ids (openSet st')"
    by (auto simp: q q' c')
  have dom': "dom (gScores st') \<subseteq> set (closedSet st') \<union> queue_ids (openSet st')"
    using dom grow by (auto simp: new(3) q')
  have closure: "v \<in> set (closedSet st') \<union> queue_ids (openSet st')"
    if "u \<in> set (closedSet st')" "(u, v) \<in> neighbour_edges net" "v \<notin> set object_prototype_keys" for u v
  proof (cases "u \<in> set (closedSet st)")
    case True
    from cl[OF True that(2,3)] grow show ?thesis by blast
  next
    case False
    with that(1) have "u = ?u" by (simp add: c')
    with that(2,3) new(6) have "v \<in> insert ?u (set (closedSet st)) \<union> dom (gScores st')"
      by (simp add: g)
    with dom' show ?thesis by (auto simp: c')
  qed
  have 1: "graph st' = net" using g new(5) by simp
  have 2: "distinct (closedSet st')" unfolding new(4) by (rule distinct_set_add[OF d])
  have 3: "set (closedSet st') \<subseteq> ?R" using cR uR by (simp add: c')
  have 4: "queue_ids (openSet st') \<subseteq> ?R" using qR newR by (simp add: q q')
  have 5: "sid \<in> set (closedSet st') \<union> queue_ids (openSet st')" using s grow by blast
  have 6: "\<forall>u \<in> set (closedSet st'). \<forall>v. (u, v) \<in> neighbour_edges net \<longrightarrow>
          v \<notin> set object_prototype_keys \<longrightarrow> v \<in> set (closedSet st') \<union> queue_ids (openSet st')"
    using closure by blast
  show ?thesis
    unfolding reach_inv_def using 1 2 3 4 dom' 5 6 by blast
qed

lemma closed_contains_reachable:
  assumes "sid \<in> C" "\<And>u v. u \<in> C \<Longrightarrow> (u, v) \<in> E \<Longrightarrow> v \<in> C"
  shows "E\<^sup>* `` {sid} \<subseteq> C"
proof
  fix v assume "v \<in> E\<^sup>* `` {sid}"
  then have "(sid, v) \<in> E\<^sup>*" by simp
  then show "v \<in> C"
    by (induction rule: rtrancl_induct) (use assms in auto)
qed

text \<open>
  With ids as the generator makes them, the pairs the search follows are the
  \<^verbatim>\<open>trust_network\<close> adjacency.
\<close>

lemma neighbour_edges_plain:
  assumes "plain_ids net"
  shows "neighbour_edges net = trust_edges net"
proof -
  from assms have d: "distinct (map node_id (nodes net))"
    and pl: "\<And>n. n \<in> set (nodes net) \<Longrightarrow> node_id n \<notin> set object_prototype_keys"
    by (auto simp: plain_ids_def list_all_iff)
  have look: "js_get (map_of (trust_network un)) (node_id n) \<noteq> Undefined \<longleftrightarrow>
              node_id n \<in> fst ` set (trust_network un)" if "n \<in> set (nodes net)" for un n
    using pl[OF that] by (simp add: js_get_Undefined map_of_eq_None_iff)
  have "(u, v) \<in> neighbour_edges net \<longleftrightarrow> (u, v) \<in> trust_edges net" for u v
  proof
    assume e: "(u, v) \<in> neighbour_edges net"
    then obtain un where un: "find (\<lambda>n. node_id n = u) (nodes net) = Some un"
      by (cases "find (\<lambda>n. node_id n = u) (nodes net)")
         (auto simp: neighbour_edges_def getNeighbors_def)
    with e obtain vn where vn: "vn \<in> set (nodes net)" "node_id vn = v"
        "js_get (map_of (trust_network un)) (node_id vn) \<noteq> Undefined"
      by (auto simp: neighbour_edges_def getNeighbors_def)
    from find_Some_mem[OF un] have "un \<in> set (nodes net)" "node_id un = u" by simp_all
    moreover have "v \<in> fst ` set (trust_network un)" using vn look[OF vn(1), of un] by simp
    moreover have "v \<in> node_id ` set (nodes net)" using vn(1,2) by blast
    ultimately show "(u, v) \<in> trust_edges net"
      unfolding trust_edges_iff by blast
  next
    assume "(u, v) \<in> trust_edges net"
    then obtain un where un: "un \<in> set (nodes net)" "node_id un = u"
      and v: "v \<in> fst ` set (trust_network un)" "v \<in> node_id ` set (nodes net)"
      unfolding trust_edges_iff by blast
    from v(2) obtain vn where "vn \<in> set (nodes net)" "node_id vn = v" by blast
    with v(1) have vn: "vn \<in> set (nodes net)" "node_id vn = v" "v \<in> fst ` set (trust_network un)"
      by simp_all
    have "find (\<lambda>n. node_id n = node_id un) (nodes net) = Some un"
      by (rule find_distinct_key[OF d un(1)])
    with un(2) vn look[OF vn(1), of un] show "(u, v) \<in> neighbour_edges net"
      by (auto simp: neighbour_edges_def getNeighbors_def)
  qed
  then show ?thesis by auto
qed

text \<open>
  For ids as the generator makes them the search does explore the whole component: when
  source and target are nodes of the network and the target cannot be reached from the
  source along trust edges (as it cannot when the two lie in different connected
  components),
  \<^const>\<open>astarInfluencePath\<close> returns, with \<open>success = false\<close> and with \<open>exploredCount\<close>
  the number of node ids reachable from the source, the source included.
\<close>

lemma astar_no_path_plain_ids:
  assumes plain: "plain_ids net"
    and sid: "sid \<in> node_id ` set (nodes net)" and tid: "tid \<in> node_id ` set (nodes net)"
    and unreach: "(sid, tid) \<notin> (trust_edges net)\<^sup>*"
  shows "\<exists>r. astarInfluencePath net sid tid meme mode = Some (r, net) \<and> \<not> success r \<and>
             exploredCount r = card ((trust_edges net)\<^sup>* `` {sid})"
proof -
  let ?R = "(neighbour_edges net)\<^sup>* `` {sid}"
  have E: "neighbour_edges net = trust_edges net" by (rule neighbour_edges_plain[OF plain])
  from sid obtain sn where sn: "find (\<lambda>n. node_id n = sid) (nodes net) = Some sn"
    by (cases "find (\<lambda>n. node_id n = sid) (nodes net)") (auto simp: find_None_iff)
  from tid obtain tn where tn: "find (\<lambda>n. node_id n = tid) (nodes net) = Some tn"
    by (cases "find (\<lambda>n. node_id n = tid) (nodes net)") (auto simp: find_None_iff)
  define st0 where "st0 =
     \<lparr>graph = net,
      openSet = pq_push (Finite 0) \<lparr>nodeId = sid, path = [sid], gScore = 0\<rparr> [],
      gScores = [sid \<mapsto> 0],
      fScores = [sid \<mapsto> calculateHeuristic sn tn meme net mode],
      frames = [], closedSet = [], pathExplanations = [], step = 0\<rparr>"
  have run: "astarInfluencePath net sid tid meme mode = astar_loop tid tn meme mode st0"
    by (simp add: astarInfluencePath_def sn tn st0_def)
  have o0: "openSet st0 = [(Finite 0, \<lparr>nodeId = sid, path = [sid], gScore = 0\<rparr>)]"
    by (simp add: st0_def pq_push_def sort_priority_def)
  have p0: "paths_ok st0" using sid by (simp add: paths_ok_def o0) (simp add: st0_def)
  have i0: "reach_inv net sid st0"
    by (simp add: reach_inv_def o0 queue_ids_def) (simp add: st0_def)
  have "\<exists>r st'. astar_loop tid tn meme mode st0 = Some (r, graph st0) \<and> reach_inv net sid st' \<and>
           paths_ok st' \<and> graph st' = graph st0 \<and>
           (case openSet st' of
              [] \<Rightarrow> r = failure mode (length (closedSet st')) (frames st')
            | x # rest \<Rightarrow> nodeId (snd x) = tid \<and> success r \<and> result_path r = path (snd x) \<and>
                          cost r = Finite (gScore (snd x)))"
    by (rule astar_loop_rule[where I = "reach_inv net sid", OF p0 i0])
       (rule astar_next_reach_inv; assumption)
  then obtain r st' where r: "astar_loop tid tn meme mode st0 = Some (r, graph st0)"
    "reach_inv net sid st'"
    "case openSet st' of
              [] \<Rightarrow> r = failure mode (length (closedSet st')) (frames st')
            | x # rest \<Rightarrow> nodeId (snd x) = tid \<and> success r \<and> result_path r = path (snd x) \<and>
                          cost r = Finite (gScore (snd x))"
    by blast
  have empty: "openSet st' = []"
  proof (cases "openSet st'")
    case Nil then show ?thesis .
  next
    case (Cons x rest)
    with r(3) have "tid \<in> queue_ids (openSet st')" by (auto simp: queue_ids_def)
    with r(2) have "tid \<in> ?R" by (auto simp: reach_inv_def)
    with unreach show ?thesis by (simp add: E)
  qed
  with r(3) have res: "r = failure mode (length (closedSet st')) (frames st')" by simp
  from r(2) empty have inv: "distinct (closedSet st')" "set (closedSet st') \<subseteq> ?R"
    "sid \<in> set (closedSet st')"
    "\<And>u v. u \<in> set (closedSet st') \<Longrightarrow> (u, v) \<in> neighbour_edges net \<Longrightarrow>
       v \<notin> set object_prototype_keys \<Longrightarrow> v \<in> set (closedSet st')"
    by (auto simp: reach_inv_def queue_ids_def)
  have plainv: "v \<notin> set object_prototype_keys" if "(u, v) \<in> neighbour_edges net" for u v
    using neighbour_edges_ids[OF that] plain by (auto simp: plain_ids_def list_all_iff)
  have "?R \<subseteq> set (closedSet st')"
    by (rule closed_contains_reachable[OF inv(3)]) (rule inv(4), assumption, assumption, rule plainv)
  with inv(2) have "set (closedSet st') = ?R" by blast
  then have "card ?R = length (closedSet st')"
    using inv(1) by (metis distinct_card)
  then show ?thesis
    using r(1) by (simp add: run res failure_def st0_def E)
qed

lemma net_split_edges:
  "(u, v) \<in> trust_edges net_split \<longleftrightarrow> (u = ''s'' \<and> v = ''x'') \<or> (u = ''x'' \<and> v = ''s'')"
proof -
  have "trust_edges net_split = {(''x'', ''s''), (''s'', ''x'')}"
    by (simp add: trust_edges_def net_split_def mk_network_def mk_node_def)
  then show ?thesis by auto
qed

lemma net_split_reach: "(trust_edges net_split)\<^sup>* `` {''s''} = {''s'', ''x''}"
proof
  show "(trust_edges net_split)\<^sup>* `` {''s''} \<subseteq> {''s'', ''x''}"
  proof (rule closed_contains_reachable)
    show "''s'' \<in> {''s'', ''x''}" by simp
    show "v \<in> {''s'', ''x''}" if "u \<in> {''s'', ''x''}" "(u, v) \<in> trust_edges net_split" for u v
      using that(2) unfolding net_split_edges by blast
  qed
  have "(''s'', ''x'') \<in> trust_edges net_split" by (simp add: net_split_edges)
  then have "(''s'', ''x'') \<in> (trust_edges net_split)\<^sup>*" by (rule r_into_rtrancl)
  then show "{''s'', ''x''} \<subseteq> (trust_edges net_split)\<^sup>* `` {''s''}" by blast
qed

text \<open>An instance: on \<open>net_split\<close> the search from \<open>s\<close> finalizes \<open>s\<close> and \<open>x\<close> and fails.\<close>

lemma astar_no_path_net_split:
  "plain_ids net_split \<and>
   ''s'' \<in> node_id ` set (nodes net_split) \<and> ''t'' \<in> node_id ` set (nodes net_split) \<and>
   (''s'', ''t'') \<notin> (trust_edges net_split)\<^sup>* \<and>
   (\<exists>r. astarInfluencePath net_split ''s'' ''t'' (mk_meme 0 0 1 0 0 0) social_trust = Some (r, net_split) \<and>
        \<not> success r \<and> exploredCount r = 2)"
proof -
  have p: "plain_ids net_split"
    by (simp add: plain_ids_def object_prototype_keys_def net_split_def mk_network_def mk_node_def)
  have a: "''s'' \<in> node_id ` set (nodes net_split)" "''t'' \<in> node_id ` set (nodes net_split)"
    by (simp_all add: net_split_def mk_network_def mk_node_def)
  have b: "(''s'', ''t'') \<notin> (trust_edges net_split)\<^sup>*"
  proof
    assume "(''s'', ''t'') \<in> (trust_edges net_split)\<^sup>*"
    then have "''t'' \<in> (trust_edges net_split)\<^sup>* `` {''s''}" by blast
    then show False unfolding net_split_reach by simp
  qed
  have c: "card ((trust_edges net_split)\<^sup>* `` {''s''}) = 2"
    by (simp add: net_split_reach)
  from astar_no_path_plain_ids[OF p a b, of "mk_meme 0 0 1 0 0 0" social_trust]
  obtain r where "astarInfluencePath net_split ''s'' ''t'' (mk_meme 0 0 1 0 0 0) social_trust = Some (r, net_split)"
    "\<not> success r" "exploredCount r = 2" unfolding c by blast
  with p a b show ?thesis by blast
qed

lemma astarInfluencePath_returns:
  "\<exists>r. astarInfluencePath net sid tid meme mode = Some (r, net)"
proof (cases "find (\<lambda>n. node_id n = sid) (nodes net)")
  case None
  then show ?thesis by (simp add: astarInfluencePath_def)
next
  case sn: (Some sn)
  show ?thesis
  proof (cases "find (\<lambda>n. node_id n = tid) (nodes net)")
    case None
    then show ?thesis by (simp add: astarInfluencePath_def sn)
  next
    case tn: (Some tn)
    define st0 where "st0 =
       \<lparr>graph = net,
        openSet = pq_push (Finite 0) \<lparr>nodeId = sid, path = [sid], gScore = 0\<rparr> [],
        gScores = [sid \<mapsto> 0],
        fScores = [sid \<mapsto> calculateHeuristic sn tn meme net mode],
        frames = [], closedSet = [], pathExplanations = [], step = 0\<rparr>"
    have run: "astarInfluencePath net sid tid meme mode = astar_loop tid tn meme mode st0"
      by (simp add: astarInfluencePath_def sn tn st0_def)
    have "sid \<in> node_id ` set (nodes net)" using find_Some_mem[OF sn] by force
    then have p0: "paths_ok st0"
      by (simp add: paths_ok_def st0_def pq_push_def sort_priority_def)
    have "\<exists>r st'. astar_loop tid tn meme mode st0 = Some (r, graph st0) \<and> True \<and>
           paths_ok st' \<and> graph st' = graph st0 \<and>
           (case openSet st' of
              [] \<Rightarrow> r = failure mode (length (closedSet st')) (frames st')
            | x # rest \<Rightarrow> nodeId (snd x) = tid \<and> success r \<and> result_path r = path (snd x) \<and>
                          cost r = Finite (gScore (snd x)))"
      by (rule astar_loop_rule[where I = "\<lambda>_. True", OF p0]) simp_all
    then show ?thesis by (auto simp: run st0_def)
  qed
qed

lemmas astar_eval =
  astarInfluencePath_def mk_node_def mk_meme_def mk_network_def astar_loop.simps pq_push_def
  sort_priority_def calculateHeuristic_def socialTrustHeuristic_def memeTrustHeuristic_def
  getNeighbors_def expandNeighbor_def calculateSocialTrustCost_def calculateMemeTrustCost_def
  set_add_def explainPathCost_def edgeCost_def js_get_def js_set_def object_prototype_keys_def
  Let_def

text \<open>
  C5 fails on the code when a node is named like a property of \<^verbatim>\<open>Object.prototype\<close>.
  In \<open>net_constructor\<close> the nodes \<open>s\<close> and \<open>constructor\<close> trust each other and \<open>t\<close> is
  alone, so two nodes can be reached from \<open>s\<close> and \<open>t\<close> is not among them. The search from
  \<open>s\<close> to \<open>t\<close> fails with \<open>exploredCount = 1\<close>, in both modes and for every meme: when
  \<open>s\<close> is expanded, \<^verbatim>\<open>gScores['constructor']\<close> is the function that the plain object
  \<open>gScores\<close> inherits, which is not \<^verbatim>\<open>undefined\<close> and not above the tentative \<open>gScore\<close>,
  so the neighbour is never queued. (\<open>closedSet\<close>, a \<^verbatim>\<open>Set\<close>, treats every id alike.)
\<close>

theorem astar_no_path_prototype_id:
  "(\<exists>r. astarInfluencePath net_constructor ''s'' ''t'' meme mode = Some (r, net_constructor) \<and>
        \<not> success r \<and> exploredCount r = 1) \<and>
   (trust_edges net_constructor)\<^sup>* `` {''s''} = {''s'', ''constructor''} \<and>
   card ((trust_edges net_constructor)\<^sup>* `` {''s''}) = 2 \<and>
   (''s'', ''t'') \<notin> (trust_edges net_constructor)\<^sup>* \<and>
   (''t'', ''s'') \<notin> (trust_edges net_constructor)\<^sup>*"
proof -
  have run: "\<exists>r. astarInfluencePath net_constructor ''s'' ''t'' meme mode = Some (r, net_constructor) \<and>
        \<not> success r \<and> exploredCount r = 1"
    by (simp add: net_constructor_def astar_eval failure_def del: not_None_eq)
  have "trust_edges net_constructor = {(''constructor'', ''s''), (''s'', ''constructor'')}"
    by (simp add: trust_edges_def net_constructor_def mk_network_def mk_node_def)
  then have edges: "(u, v) \<in> trust_edges net_constructor \<longleftrightarrow>
      (u = ''s'' \<and> v = ''constructor'') \<or> (u = ''constructor'' \<and> v = ''s'')" for u v
    by auto
  have sub: "(trust_edges net_constructor)\<^sup>* `` {''s''} \<subseteq> {''s'', ''constructor''}"
  proof (rule closed_contains_reachable)
    show "''s'' \<in> {''s'', ''constructor''}" by simp
    show "v \<in> {''s'', ''constructor''}"
      if "u \<in> {''s'', ''constructor''}" "(u, v) \<in> trust_edges net_constructor" for u v
      using that(2) unfolding edges by blast
  qed
  have "(''s'', ''constructor'') \<in> trust_edges net_constructor" by (simp add: edges)
  then have "(''s'', ''constructor'') \<in> (trust_edges net_constructor)\<^sup>*" by (rule r_into_rtrancl)
  then have "{''s'', ''constructor''} \<subseteq> (trust_edges net_constructor)\<^sup>* `` {''s''}" by blast
  with sub have reach: "(trust_edges net_constructor)\<^sup>* `` {''s''} = {''s'', ''constructor''}"
    by blast
  have st: "(''s'', ''t'') \<notin> (trust_edges net_constructor)\<^sup>*"
  proof
    assume "(''s'', ''t'') \<in> (trust_edges net_constructor)\<^sup>*"
    then have "''t'' \<in> (trust_edges net_constructor)\<^sup>* `` {''s''}" by blast
    then show False unfolding reach by simp
  qed
  have "(trust_edges net_constructor)\<^sup>* `` {''t''} \<subseteq> {''t''}"
  proof (rule closed_contains_reachable)
    show "''t'' \<in> {''t''}" by simp
    show "v \<in> {''t''}" if "u \<in> {''t''}" "(u, v) \<in> trust_edges net_constructor" for u v
      using that unfolding edges by simp
  qed
  then have ts: "(''t'', ''s'') \<notin> (trust_edges net_constructor)\<^sup>*" by auto
  have card: "card ((trust_edges net_constructor)\<^sup>* `` {''s''}) = 2"
    by (simp add: reach)
  from run reach card st ts show ?thesis by blast
qed

text \<open>
  C3 fails on the code, in both modes. On \<open>net4\<close> in mode A the search from \<open>s\<close> to \<open>t\<close>
  returns the direct edge with cost 2/5, and the path over \<open>x\<close> and \<open>y\<close> costs 3/20: at
  \<open>x\<close> the heuristic is 9/5, far above the remaining cost 1/10, so \<open>t\<close> is popped first.
  On \<open>net4m\<close> in mode B the search returns the path over \<open>b\<close> with cost 27/20, and the
  path over \<open>a\<close> and \<open>b\<close> costs 6/5: \<open>b\<close> is finalized with the cost of the direct edge
  before \<open>a\<close> is expanded (the heuristic is 0 at \<open>b\<close> and 4/5 at \<open>a\<close>), and is not
  reopened. All attributes and trust weights are in their documented ranges.
\<close>

theorem astar_returns_suboptimal_path:
  "(\<exists>r. astarInfluencePath net4 ''s'' ''t'' (mk_meme 0 0 1 0 0 0) social_trust = Some (r, net4) \<and>
        success r \<and> result_path r = [''s'', ''t''] \<and> cost r = Finite (2/5)) \<and>
   pathCost social_trust (mk_meme 0 0 1 0 0 0) net4 [''s'', ''x'', ''y'', ''t''] = Some (3/20) \<and>
   calculateHeuristic (mk_node ''x'' urban_professional 0 0 0 0 0 [(''s'', 1), (''y'', 1)])
     (mk_node ''t'' tech_worker 0 0 0 0 0 [(''s'', 0.5), (''y'', 1)])
     (mk_meme 0 0 1 0 0 0) net4 social_trust = Finite (9/5) \<and>
   pathCost social_trust (mk_meme 0 0 1 0 0 0) net4 [''x'', ''y'', ''t''] = Some (1/10) \<and>
   (\<exists>r. astarInfluencePath net4m ''s'' ''t'' (mk_meme 0 0 1 0 1 1) meme_trust = Some (r, net4m) \<and>
        success r \<and> result_path r = [''s'', ''b'', ''t''] \<and> cost r = Finite (27/20)) \<and>
   pathCost meme_trust (mk_meme 0 0 1 0 1 1) net4m [''s'', ''a'', ''b'', ''t''] = Some (6/5)"
proof -
  have a: "\<exists>r. astarInfluencePath net4 ''s'' ''t'' (mk_meme 0 0 1 0 0 0) social_trust = Some (r, net4) \<and>
             success r \<and> result_path r = [''s'', ''t''] \<and> cost r = Finite (2/5)"
    by (simp add: net4_def astar_eval del: not_None_eq)
  have b: "pathCost social_trust (mk_meme 0 0 1 0 0 0) net4 [''s'', ''x'', ''y'', ''t''] = Some (3/20)"
    by (simp add: net4_def astar_eval del: not_None_eq)
  have c: "calculateHeuristic (mk_node ''x'' urban_professional 0 0 0 0 0 [(''s'', 1), (''y'', 1)])
             (mk_node ''t'' tech_worker 0 0 0 0 0 [(''s'', 0.5), (''y'', 1)])
             (mk_meme 0 0 1 0 0 0) net4 social_trust = Finite (9/5)"
    by (simp add: astar_eval)
  have d: "pathCost social_trust (mk_meme 0 0 1 0 0 0) net4 [''x'', ''y'', ''t''] = Some (1/10)"
    by (simp add: net4_def astar_eval del: not_None_eq)
  have e: "\<exists>r. astarInfluencePath net4m ''s'' ''t'' (mk_meme 0 0 1 0 1 1) meme_trust = Some (r, net4m) \<and>
             success r \<and> result_path r = [''s'', ''b'', ''t''] \<and> cost r = Finite (27/20)"
    by (simp add: net4m_def astar_eval del: not_None_eq)
  have f: "pathCost meme_trust (mk_meme 0 0 1 0 1 1) net4m [''s'', ''a'', ''b'', ''t''] = Some (6/5)"
    by (simp add: net4m_def astar_eval del: not_None_eq)
  from a b c d e f show ?thesis by blast
qed

section \<open>Spread estimation: theorems\<close>

lemma tryInfect_cases:
  "(infectedSet (tryInfect rnd meme cn c e) = infectedSet c \<and>
    queue (tryInfect rnd meme cn c e) = queue c \<or>
    (\<exists>x. x \<in> node_id ` set (nodes (world_graph (world c))) \<and> x \<notin> set (infectedSet c) \<and>
         infectedSet (tryInfect rnd meme cn c e) = infectedSet c @ [x] \<and>
         queue (tryInfect rnd meme cn c e) = queue c @ [x])) \<and>
   world_graph (world (tryInfect rnd meme cn c e)) = world_graph (world c)"
proof (cases "fst e \<in> set (infectedSet c)")
  case True
  then show ?thesis by (simp add: tryInfect_def)
next
  case False
  show ?thesis
  proof (cases "find (\<lambda>n. node_id n = fst e) (nodes (world_graph (world c)))")
    case None
    with False show ?thesis by (simp add: tryInfect_def)
  next
    case (Some nb)
    then have "fst e \<in> node_id ` set (nodes (world_graph (world c)))"
      using find_Some_mem[OF Some] by force
    with False Some show ?thesis
      by (auto simp: tryInfect_def Let_def math_random_def set_add_new)
  qed
qed

lemma foldl_tryInfect:
  "\<exists>new. infectedSet (foldl (tryInfect rnd meme cn) c es) = infectedSet c @ new \<and>
         queue (foldl (tryInfect rnd meme cn) c es) = queue c @ new \<and>
         distinct new \<and>
         set new \<subseteq> node_id ` set (nodes (world_graph (world c))) - set (infectedSet c) \<and>
         world_graph (world (foldl (tryInfect rnd meme cn) c es)) = world_graph (world c)"
proof (induction es arbitrary: c)
  case Nil
  show ?case by simp
next
  case (Cons e es)
  let ?c1 = "tryInfect rnd meme cn c e"
  from Cons.IH[of ?c1] obtain new where new:
    "infectedSet (foldl (tryInfect rnd meme cn) ?c1 es) = infectedSet ?c1 @ new"
    "queue (foldl (tryInfect rnd meme cn) ?c1 es) = queue ?c1 @ new"
    "distinct new"
    "set new \<subseteq> node_id ` set (nodes (world_graph (world ?c1))) - set (infectedSet ?c1)"
    "world_graph (world (foldl (tryInfect rnd meme cn) ?c1 es)) = world_graph (world ?c1)"
    by blast
  have g: "world_graph (world ?c1) = world_graph (world c)"
    using tryInfect_cases[of rnd meme cn c e] by blast
  from tryInfect_cases[of rnd meme cn c e] consider
    (same) "infectedSet ?c1 = infectedSet c" "queue ?c1 = queue c"
  | (add) x where "x \<in> node_id ` set (nodes (world_graph (world c)))" "x \<notin> set (infectedSet c)"
       "infectedSet ?c1 = infectedSet c @ [x]" "queue ?c1 = queue c @ [x]"
    by blast
  then show ?case
  proof cases
    case same
    with new g show ?thesis by (intro exI[of _ new]) simp
  next
    case add
    with new g show ?thesis by (intro exI[of _ "x # new"]) auto
  qed
qed

lemma cascade_measure_step:
  assumes "infectedSet c' = infectedSet c @ new" "queue c' = rest @ new" "queue c = x # rest"
    "distinct new" "set new \<subseteq> node_id ` set (nodes (world_graph (world c))) - set (infectedSet c)"
    "world_graph (world c') = world_graph (world c)"
  shows "cascade_measure c' < cascade_measure c"
proof -
  let ?ids = "node_id ` set (nodes (world_graph (world c)))"
  have fin: "finite (?ids - set (infectedSet c))" by simp
  have eq: "?ids - set (infectedSet c') = (?ids - set (infectedSet c)) - set new"
    using assms(1) by auto
  have "card ((?ids - set (infectedSet c)) - set new) = card (?ids - set (infectedSet c)) - card (set new)"
    using assms(5) by (intro card_Diff_subset) auto
  moreover have "card (set new) = length new" using assms(4) by (simp add: distinct_card)
  moreover have "length new \<le> card (?ids - set (infectedSet c))"
    using assms(4,5) fin by (metis card_mono distinct_card)
  ultimately show ?thesis
    using assms(2,3,6) by (simp add: cascade_measure_def eq)
qed

lemma cascade_loop_terminates:
  "\<exists>c' new. cascade_loop rnd meme c = Some c' \<and> queue c' = [] \<and>
     infectedSet c' = infectedSet c @ new \<and> distinct new \<and>
     set new \<subseteq> node_id ` set (nodes (world_graph (world c))) - set (infectedSet c) \<and>
     world_graph (world c') = world_graph (world c)"
proof (induction "cascade_measure c" arbitrary: c rule: less_induct)
  case less
  show ?case
  proof (cases "queue c")
    case Nil
    then show ?thesis by (subst cascade_loop.simps) simp
  next
    case (Cons x rest)
    let ?c1 = "c\<lparr>queue := rest\<rparr>"
    define c2 where "c2 =
      (case find (\<lambda>n. node_id n = x) (nodes (world_graph (world ?c1))) of
         None \<Rightarrow> ?c1
       | Some cn \<Rightarrow> foldl (tryInfect rnd meme cn) ?c1 (trust_network cn))"
    have unfold: "cascade_loop rnd meme c = cascade_loop rnd meme c2"
      by (subst cascade_loop.simps) (simp add: Cons c2_def split: option.splits)
    have "\<exists>new. infectedSet c2 = infectedSet ?c1 @ new \<and> queue c2 = queue ?c1 @ new \<and> distinct new \<and>
            set new \<subseteq> node_id ` set (nodes (world_graph (world ?c1))) - set (infectedSet ?c1) \<and>
            world_graph (world c2) = world_graph (world ?c1)"
    proof (cases "find (\<lambda>n. node_id n = x) (nodes (world_graph (world ?c1)))")
      case None
      then show ?thesis by (simp add: c2_def)
    next
      case (Some cn)
      then show ?thesis
        using foldl_tryInfect[of rnd meme cn ?c1 "trust_network cn"] by (simp add: c2_def)
    qed
    then obtain new1 where n1:
      "infectedSet c2 = infectedSet c @ new1" "queue c2 = rest @ new1" "distinct new1"
      "set new1 \<subseteq> node_id ` set (nodes (world_graph (world c))) - set (infectedSet c)"
      "world_graph (world c2) = world_graph (world c)"
      by auto
    have "cascade_measure c2 < cascade_measure c"
      by (rule cascade_measure_step[OF n1(1,2) Cons n1(3,4,5)])
    from less[OF this] obtain c' new2 where r:
      "cascade_loop rnd meme c2 = Some c'" "queue c' = []"
      "infectedSet c' = infectedSet c2 @ new2" "distinct new2"
      "set new2 \<subseteq> node_id ` set (nodes (world_graph (world c2))) - set (infectedSet c2)"
      "world_graph (world c') = world_graph (world c2)"
      by blast
    show ?thesis
      using r n1 unfold by (intro exI[of _ c'] exI[of _ "new1 @ new2"]) auto
  qed
qed

text \<open>
  C9: a simulation run of \<^verbatim>\<open>estimateSpread\<close> ends, for every network, seed set, meme
  and sequence of random values: the loop returns with an empty queue. The infected set it
  ends with is the seed set followed by the ids that were enqueued, in the order of their
  enqueueing (an id is pushed on the queue exactly when it is added to the infected set);
  these ids are pairwise different ids of nodes of the graph outside the seed set, so there
  are at most as many enqueue operations as nodes.
\<close>

theorem cascade_run_terminates:
  "\<exists>c new. cascade_loop rnd meme \<lparr>infectedSet = seeds0, queue = seeds0, world = w\<rparr> = Some c \<and>
     queue c = [] \<and> infectedSet c = seeds0 @ new \<and> distinct new \<and>
     set new \<subseteq> node_id ` set (nodes (world_graph w)) - set seeds0 \<and>
     length new \<le> length (nodes (world_graph w))"
proof -
  from cascade_loop_terminates[of rnd meme "\<lparr>infectedSet = seeds0, queue = seeds0, world = w\<rparr>"]
  obtain c new where r:
    "cascade_loop rnd meme \<lparr>infectedSet = seeds0, queue = seeds0, world = w\<rparr> = Some c"
    "queue c = []" "infectedSet c = seeds0 @ new" "distinct new"
    "set new \<subseteq> node_id ` set (nodes (world_graph w)) - set seeds0"
    by auto
  have "length new = card (set new)" using r(4) by (simp add: distinct_card)
  also have "\<dots> \<le> card (node_id ` set (nodes (world_graph w)))"
    using r(5) by (intro card_mono) auto
  also have "\<dots> \<le> length (nodes (world_graph w))"
    by (metis card_image_le card_length le_trans List.finite_set)
  finally show ?thesis using r by blast
qed

lemma simulate_returns:
  "\<exists>t w'. simulate rnd sd meme k t0 w = Some (t, w') \<and> world_graph w' = world_graph w"
proof (induction k arbitrary: t0 w)
  case 0
  show ?case by simp
next
  case (Suc k)
  from cascade_loop_terminates[of rnd meme "\<lparr>infectedSet = sd, queue = sd, world = w\<rparr>"]
  obtain c where c: "cascade_loop rnd meme \<lparr>infectedSet = sd, queue = sd, world = w\<rparr> = Some c"
    "world_graph (world c) = world_graph w" by auto
  from Suc[of "t0 + real (length (infectedSet c))" "world c"] c show ?case by auto
qed

lemma estimateSpread_returns:
  "\<exists>x w'. estimateSpread rnd sd meme k w = Some (x, w') \<and> world_graph w' = world_graph w"
proof -
  from simulate_returns[of rnd sd meme k 0 "w\<lparr>spreadCalls := Suc (spreadCalls w)\<rparr>"]
  show ?thesis by (auto simp: estimateSpread_def)
qed

lemma calculateMarginalGain_returns:
  "\<exists>x w'. calculateMarginalGain rnd sd v meme k w = Some (x, w') \<and> world_graph w' = world_graph w"
proof -
  from estimateSpread_returns[of rnd sd meme k w] obtain a w1 where
    1: "estimateSpread rnd sd meme k w = Some (a, w1)" "world_graph w1 = world_graph w" by blast
  from estimateSpread_returns[of rnd "set_add sd v" meme k w1] obtain b w2 where
    2: "estimateSpread rnd (set_add sd v) meme k w1 = Some (b, w2)" "world_graph w2 = world_graph w1"
    by blast
  show ?thesis using 1 2 by (simp add: calculateMarginalGain_def Let_def)
qed

section \<open>The seed selectors: theorems\<close>

lemmas celf_eval =
  celfSelection_def celfPlusPlusSelection_def celf_outer.simps celf_inner.simps
  celfpp_outer.simps celfpp_inner.simps calculateMarginalGain_def estimateSpread_def
  cascade_loop.simps tryInfect_def math_random_def sortQ_def set_add_def truthy_def
  calculateAcceptanceProbability_def clamp_def mk_node_def mk_meme_def mk_network_def Let_def

text \<open>
  C8 fails on the code, also where the spread estimate does not depend on chance. On
  \<open>net_stale\<close> with budget 3, one simulation per estimate and the random source
  \<open>rnd_tenth\<close>, the estimated spread of a seed set is the number of nodes it reaches:
  3 from \<open>s1\<close> (itself, \<open>u\<close>, \<open>x\<close>), 2 from \<open>p\<close>, \<open>u\<close> or \<open>x\<close>, 1 from \<open>y\<close> or \<open>v\<close>.
  CELF selects \<open>s1\<close>, \<open>p\<close>, \<open>v\<close>, a seed set of spread 6, with 22 calls of
  \<^verbatim>\<open>estimateSpread\<close>. CELF++ selects \<open>s1\<close>, \<open>p\<close>, \<open>u\<close>, a seed set of spread 5, with
  26 calls. When \<open>u\<close> comes to the head of the queue in the third round, its \<open>prevBest\<close>
  is the last seed \<open>p\<close>, so CELF++ takes the cached \<open>mg2\<close> of \<open>u\<close> for its marginal
  gain; that value, 2, was estimated during the initialisation against the seed set
  \<open>{p}\<close>, and the marginal gain of \<open>u\<close> against the seeds \<open>s1\<close>, \<open>p\<close> is 0. The
  initialisation of CELF++ estimates two marginal gains for every candidate but the first,
  which is where its additional calls come from.
\<close>

theorem celfpp_stale_cache:
  "(\<exists>w. celfSelection rnd_tenth (mk_meme 0 0 1 0 0 0) 3 1 (fresh_world net_stale)
          = Some ([''s1'', ''p'', ''v''], w) \<and> spreadCalls w = 22) \<and>
   (\<exists>w. celfPlusPlusSelection rnd_tenth (mk_meme 0 0 1 0 0 0) 3 1 (fresh_world net_stale)
          = Some ([''s1'', ''p'', ''u''], w) \<and> spreadCalls w = 26) \<and>
   (\<exists>w. estimateSpread rnd_tenth [''s1'', ''p'', ''v''] (mk_meme 0 0 1 0 0 0) 1 (fresh_world net_stale)
          = Some (6, w)) \<and>
   (\<exists>w. estimateSpread rnd_tenth [''s1'', ''p'', ''u''] (mk_meme 0 0 1 0 0 0) 1 (fresh_world net_stale)
          = Some (5, w)) \<and>
   (\<exists>w. calculateMarginalGain rnd_tenth [''p''] ''u'' (mk_meme 0 0 1 0 0 0) 1 (fresh_world net_stale)
          = Some (2, w)) \<and>
   (\<exists>w. calculateMarginalGain rnd_tenth [''s1'', ''p''] ''u'' (mk_meme 0 0 1 0 0 0) 1 (fresh_world net_stale)
          = Some (0, w))"
proof -
  have a: "\<exists>w. celfSelection rnd_tenth (mk_meme 0 0 1 0 0 0) 3 1 (fresh_world net_stale)
          = Some ([''s1'', ''p'', ''v''], w) \<and> spreadCalls w = 22"
    by (simp add: net_stale_def fresh_world_def rnd_tenth_def celf_eval)
  have b: "\<exists>w. celfPlusPlusSelection rnd_tenth (mk_meme 0 0 1 0 0 0) 3 1 (fresh_world net_stale)
          = Some ([''s1'', ''p'', ''u''], w) \<and> spreadCalls w = 26"
    by (simp add: net_stale_def fresh_world_def rnd_tenth_def celf_eval)
  have c: "\<exists>w. estimateSpread rnd_tenth [''s1'', ''p'', ''v''] (mk_meme 0 0 1 0 0 0) 1 (fresh_world net_stale)
          = Some (6, w)"
    by (simp add: net_stale_def fresh_world_def rnd_tenth_def celf_eval)
  have d: "\<exists>w. estimateSpread rnd_tenth [''s1'', ''p'', ''u''] (mk_meme 0 0 1 0 0 0) 1 (fresh_world net_stale)
          = Some (5, w)"
    by (simp add: net_stale_def fresh_world_def rnd_tenth_def celf_eval)
  have e: "\<exists>w. calculateMarginalGain rnd_tenth [''p''] ''u'' (mk_meme 0 0 1 0 0 0) 1 (fresh_world net_stale)
          = Some (2, w)"
    by (simp add: net_stale_def fresh_world_def rnd_tenth_def celf_eval)
  have f: "\<exists>w. calculateMarginalGain rnd_tenth [''s1'', ''p''] ''u'' (mk_meme 0 0 1 0 0 0) 1 (fresh_world net_stale)
          = Some (0, w)"
    by (simp add: net_stale_def fresh_world_def rnd_tenth_def celf_eval)
  from a b c d e f show ?thesis by blast
qed

text \<open>
  Where the estimates do depend on chance the two selectors also read the random source
  differently. On \<open>net_celf\<close> with budget 1, one simulation per estimate and the same
  random source (second value 0, every other value 0.99), CELF selects \<open>c\<close> after 6 calls
  of \<^verbatim>\<open>estimateSpread\<close>, and CELF++ selects \<open>a\<close> after 10 calls: the additional
  estimates of its initialisation move every later estimate to later random values.
\<close>

lemma celf_random_values:
  "(\<exists>w. celfSelection rnd_second_low (mk_meme 0 0 1 0 0 0) 1 1 (fresh_world net_celf)
          = Some ([''c''], w) \<and> spreadCalls w = 6) \<and>
   (\<exists>w. celfPlusPlusSelection rnd_second_low (mk_meme 0 0 1 0 0 0) 1 1 (fresh_world net_celf)
          = Some ([''a''], w) \<and> spreadCalls w = 10)"
proof -
  have a: "\<exists>w. celfSelection rnd_second_low (mk_meme 0 0 1 0 0 0) 1 1 (fresh_world net_celf)
          = Some ([''c''], w) \<and> spreadCalls w = 6"
    by (simp add: net_celf_def fresh_world_def rnd_second_low_def celf_eval)
  have b: "\<exists>w. celfPlusPlusSelection rnd_second_low (mk_meme 0 0 1 0 0 0) 1 1 (fresh_world net_celf)
          = Some ([''a''], w) \<and> spreadCalls w = 10"
    by (simp add: net_celf_def fresh_world_def rnd_second_low_def celf_eval)
  from a b show ?thesis by blast
qed

lemma length_filter_sortQ: "length (filter P (sortQ q)) = length (filter P q)"
  by (simp add: sortQ_def filter_sort)

lemma celf_init_returns:
  "\<exists>s'. celf_init rnd meme k ns s = Some s' \<and>
        world_graph (sel_world s') = world_graph (sel_world s) \<and>
        seeds s' = seeds s \<and>
        map celf_nodeId (Q s') = map celf_nodeId (Q s) @ candidates ns"
proof (induction ns arbitrary: s)
  case Nil
  show ?case by (simp add: candidates_def)
next
  case (Cons n ns)
  show ?case
  proof (cases "state n = susceptible")
    case False
    then show ?thesis using Cons[of s] by (simp add: candidates_def)
  next
    case True
    from calculateMarginalGain_returns[of rnd "seedSet s" "node_id n" meme k "sel_world s"]
    obtain mg w' where mg: "calculateMarginalGain rnd (seedSet s) (node_id n) meme k (sel_world s) = Some (mg, w')"
      "world_graph w' = world_graph (sel_world s)" by blast
    let ?s1 = "s\<lparr>Q := Q s @ [\<lparr>celf_nodeId = node_id n, mg1 = mg, prevBest = None, mg2 = 0, flag = 0\<rparr>],
             sel_world := w'\<rparr>"
    from Cons[of ?s1] mg True show ?thesis by (simp add: candidates_def)
  qed
qed

lemma mset_ids_sortQ: "image_mset celf_nodeId (mset (sortQ q)) = image_mset celf_nodeId (mset q)"
  by (simp add: sortQ_def)

lemma celf_inner_returns:
  "\<exists>s'. celf_inner rnd meme k s = Some s' \<and>
        world_graph (sel_world s') = world_graph (sel_world s) \<and>
        (Q s \<noteq> [] \<longrightarrow> length (seeds s') = Suc (length (seeds s)) \<and>
                     Suc (length (Q s')) = length (Q s)) \<and>
        mset (seeds s') + mset (map celf_nodeId (Q s')) =
          mset (seeds s) + mset (map celf_nodeId (Q s))"
proof (induction "stale s" arbitrary: s rule: less_induct)
  case less
  show ?case
  proof (cases "Q s")
    case Nil
    then show ?thesis by (subst celf_inner.simps) simp
  next
    case (Cons u rest)
    show ?thesis
    proof (cases "flag u = length (seeds s)")
      case True
      then show ?thesis by (subst celf_inner.simps) (simp add: Cons)
    next
      case False
      from calculateMarginalGain_returns[of rnd "seedSet s" "celf_nodeId u" meme k "sel_world s"]
      obtain mg w' where mg:
        "calculateMarginalGain rnd (seedSet s) (celf_nodeId u) meme k (sel_world s) = Some (mg, w')"
        "world_graph w' = world_graph (sel_world s)" by blast
      let ?s1 = "s\<lparr>Q := sortQ (u\<lparr>mg1 := mg, flag := length (seeds s)\<rparr> # rest), sel_world := w'\<rparr>"
      have unfold: "celf_inner rnd meme k s = celf_inner rnd meme k ?s1"
        by (subst celf_inner.simps) (simp add: Cons False mg)
      have "stale ?s1 < stale s"
        by (simp add: stale_def length_filter_sortQ Cons False)
      from less[OF this] obtain s' where s': "celf_inner rnd meme k ?s1 = Some s'"
        "world_graph (sel_world s') = world_graph (sel_world ?s1)"
        "Q ?s1 \<noteq> [] \<longrightarrow> length (seeds s') = Suc (length (seeds ?s1)) \<and>
                     Suc (length (Q s')) = length (Q ?s1)"
        "mset (seeds s') + mset (map celf_nodeId (Q s')) =
          mset (seeds ?s1) + mset (map celf_nodeId (Q ?s1))" by blast
      have len: "length (Q ?s1) = length (Q s)" by (simp add: sortQ_def Cons)
      have ne: "Q ?s1 \<noteq> []" by (simp add: sortQ_def)
      have ids: "mset (map celf_nodeId (Q ?s1)) = mset (map celf_nodeId (Q s))"
        by (simp add: mset_ids_sortQ Cons)
      show ?thesis using s' mg(2) len ne ids unfolding unfold by (intro exI[of _ s']) simp
    qed
  qed
qed

lemma less_budget_iff: "real m < b \<longleftrightarrow> m < nat \<lceil>b\<rceil>"
proof -
  have "real m < b \<longleftrightarrow> int m < \<lceil>b\<rceil>" by (simp add: less_ceiling_iff)
  also have "\<dots> \<longleftrightarrow> m < nat \<lceil>b\<rceil>" by linarith
  finally show ?thesis .
qed

lemma celf_outer_returns:
  "\<exists>s'. celf_outer rnd meme budget k s = Some s' \<and>
        world_graph (sel_world s') = world_graph (sel_world s) \<and>
        length (seeds s') =
          (if length (seeds s) < nat \<lceil>budget\<rceil>
           then min (nat \<lceil>budget\<rceil>) (length (seeds s) + length (Q s)) else length (seeds s)) \<and>
        mset (seeds s') + mset (map celf_nodeId (Q s')) =
          mset (seeds s) + mset (map celf_nodeId (Q s))"
proof (induction "length (Q s)" arbitrary: s rule: less_induct)
  case less
  show ?case
  proof (cases "real (length (seeds s)) < budget \<and> Q s \<noteq> []")
    case False
    then have "celf_outer rnd meme budget k s = Some s" by (subst celf_outer.simps) auto
    then show ?thesis using False by (auto simp: less_budget_iff)
  next
    case True
    from celf_inner_returns[of rnd meme k s] True obtain s1 where s1:
      "celf_inner rnd meme k s = Some s1" "world_graph (sel_world s1) = world_graph (sel_world s)"
      "length (seeds s1) = Suc (length (seeds s))" "Suc (length (Q s1)) = length (Q s)"
      "mset (seeds s1) + mset (map celf_nodeId (Q s1)) =
          mset (seeds s) + mset (map celf_nodeId (Q s))" by blast
    have "length (Q s1) < length (Q s)" using s1(4) by simp
    from less[OF this] obtain s' where s':
      "celf_outer rnd meme budget k s1 = Some s'" "world_graph (sel_world s') = world_graph (sel_world s1)"
      "length (seeds s') =
          (if length (seeds s1) < nat \<lceil>budget\<rceil>
           then min (nat \<lceil>budget\<rceil>) (length (seeds s1) + length (Q s1)) else length (seeds s1))"
      "mset (seeds s') + mset (map celf_nodeId (Q s')) =
          mset (seeds s1) + mset (map celf_nodeId (Q s1))"
      by blast
    have run: "celf_outer rnd meme budget k s = Some s'"
      using s1(1) s'(1) True by (subst celf_outer.simps) simp
    define B where "B = nat \<lceil>budget\<rceil>"
    have lt: "length (seeds s) < B" using True by (simp add: less_budget_iff B_def)
    have "length (seeds s') =
          (if length (seeds s1) < B then min B (length (seeds s1) + length (Q s1)) else length (seeds s1))"
      using s'(3) by (simp only: B_def)
    then have "length (seeds s') = min B (length (seeds s) + length (Q s))"
      using s1(3,4) lt by (auto simp: min_def)
    then show ?thesis using run s'(2,4) s1(2,5) lt by (simp add: B_def)
  qed
qed

lemma celfSelection_returns:
  "\<exists>sel w'. celfSelection rnd meme budget k w = Some (sel, w') \<and> world_graph w' = world_graph w \<and>
     length sel = min (nat \<lceil>budget\<rceil>) (length (candidates (nodes (world_graph w)))) \<and>
     mset sel \<subseteq># mset (candidates (nodes (world_graph w)))"
proof -
  let ?i = "\<lparr>seeds = [], seedSet = [], Q = [], lastSeed = None, curBest = None, sel_world = w\<rparr>"
  let ?c = "candidates (nodes (world_graph w))"
  from celf_init_returns[of rnd meme k "nodes (world_graph w)" ?i] obtain s0 where
    s0: "celf_init rnd meme k (nodes (world_graph w)) ?i = Some s0"
    "world_graph (sel_world s0) = world_graph w" "seeds s0 = []"
    "map celf_nodeId (Q s0) = ?c" by auto
  let ?s1 = "s0\<lparr>Q := sortQ (Q s0)\<rparr>"
  have q1: "length (Q ?s1) = length ?c" "mset (map celf_nodeId (Q ?s1)) = mset ?c"
  proof -
    have "length (Q ?s1) = length (map celf_nodeId (Q s0))" by (simp add: sortQ_def)
    then show "length (Q ?s1) = length ?c" by (simp only: s0(4))
    have "mset (map celf_nodeId (Q ?s1)) = mset (map celf_nodeId (Q s0))"
      by (simp add: mset_ids_sortQ)
    then show "mset (map celf_nodeId (Q ?s1)) = mset ?c" by (simp only: s0(4))
  qed
  from celf_outer_returns[of rnd meme budget k ?s1] obtain s where s:
    "celf_outer rnd meme budget k ?s1 = Some s"
    "world_graph (sel_world s) = world_graph (sel_world ?s1)"
    "length (seeds s) =
          (if length (seeds ?s1) < nat \<lceil>budget\<rceil>
           then min (nat \<lceil>budget\<rceil>) (length (seeds ?s1) + length (Q ?s1)) else length (seeds ?s1))"
    "mset (seeds s) + mset (map celf_nodeId (Q s)) =
          mset (seeds ?s1) + mset (map celf_nodeId (Q ?s1))" by blast
  have len: "length (seeds s) = min (nat \<lceil>budget\<rceil>) (length ?c)"
    using s(3) s0(3) q1(1) by (auto simp: min_def)
  have "mset (seeds s) + mset (map celf_nodeId (Q s)) = mset ?c"
    using s(4) s0(3) q1(2) by simp
  then have sub: "mset (seeds s) \<subseteq># mset ?c" by (metis mset_subset_eq_add_left)
  show ?thesis using s0(1,2) s(1,2) len sub by (simp add: celfSelection_def)
qed

lemma celfpp_init_returns:
  "curBest_ok s \<Longrightarrow>
   \<exists>s'. celfpp_init rnd meme k ns s = Some s' \<and>
        world_graph (sel_world s') = world_graph (sel_world s) \<and>
        seeds s' = seeds s \<and>
        map celf_nodeId (Q s') = map celf_nodeId (Q s) @ candidates ns"
proof (induction ns arbitrary: s)
  case Nil
  show ?case by (simp add: candidates_def)
next
  case (Cons n ns)
  show ?case
  proof (cases "state n = susceptible")
    case False
    then show ?thesis using Cons.IH[OF Cons.prems] by (simp add: candidates_def)
  next
    case True
    from calculateMarginalGain_returns[of rnd "seedSet s" "node_id n" meme k "sel_world s"]
    obtain m1 w1 where m1:
      "calculateMarginalGain rnd (seedSet s) (node_id n) meme k (sel_world s) = Some (m1, w1)"
      "world_graph w1 = world_graph (sel_world s)" by blast
    define second where "second =
      (if truthy (curBest s)
       then calculateMarginalGain rnd (set_add (seedSet s) (the (curBest s))) (node_id n) meme k w1
       else Some (0, w1))"
    have "\<exists>m2 w2. second = Some (m2, w2) \<and> world_graph w2 = world_graph w1"
      unfolding second_def
      using calculateMarginalGain_returns[of rnd "set_add (seedSet s) (the (curBest s))" "node_id n" meme k w1]
      by simp
    then obtain m2 w2 where m2: "second = Some (m2, w2)" "world_graph w2 = world_graph w1" by blast
    let ?q' = "Q s @ [\<lparr>celf_nodeId = node_id n, mg1 = m1, prevBest = curBest s, mg2 = m2, flag = 0\<rparr>]"
    let ?third =
      "(if \<not> truthy (curBest s) then Some (Some (node_id n))
       else (case find (\<lambda>b. Some (celf_nodeId b) = curBest s) ?q' of
               None \<Rightarrow> None
             | Some b \<Rightarrow> Some (if m1 > mg1 b then Some (node_id n) else curBest s)))"
    have "\<exists>best. ?third = Some best \<and> (best = Some (node_id n) \<or> best = curBest s)"
    proof (cases "truthy (curBest s)")
      case False
      then show ?thesis by simp
    next
      case True
      with Cons.prems obtain b where "b \<in> set (Q s)" "Some (celf_nodeId b) = curBest s"
        by (auto simp: curBest_ok_def)
      then have "find (\<lambda>b. Some (celf_nodeId b) = curBest s) ?q' \<noteq> None"
        by (auto simp: find_None_iff)
      then obtain b' where "find (\<lambda>b. Some (celf_nodeId b) = curBest s) ?q' = Some b'" by blast
      then show ?thesis using True by (simp only: if_False not_not option.case) auto
    qed
    then obtain best where best: "?third = Some best" "best = Some (node_id n) \<or> best = curBest s"
      by blast
    let ?s1 = "s\<lparr>Q := ?q', curBest := best, sel_world := w2\<rparr>"
    have ok: "curBest_ok ?s1"
      using best(2) Cons.prems by (auto simp: curBest_ok_def)
    have "celfpp_init rnd meme k (n # ns) s =
          do { b \<leftarrow> ?third; celfpp_init rnd meme k ns (s\<lparr>Q := ?q', curBest := b, sel_world := w2\<rparr>) }"
      using True m1 m2 by (simp add: second_def[symmetric] Let_def)
    then have unfold: "celfpp_init rnd meme k (n # ns) s = celfpp_init rnd meme k ns ?s1"
      by (simp only: best(1) Option.bind.simps)
    from Cons.IH[OF ok] show ?thesis unfolding unfold using m1(2) m2(2) True
      by (simp add: candidates_def)
  qed
qed

lemma celfpp_inner_returns:
  "\<exists>s'. celfpp_inner rnd meme k s = Some s' \<and>
        world_graph (sel_world s') = world_graph (sel_world s) \<and>
        (Q s \<noteq> [] \<longrightarrow> length (seeds s') = Suc (length (seeds s)) \<and>
                     Suc (length (Q s')) = length (Q s)) \<and>
        mset (seeds s') + mset (map celf_nodeId (Q s')) =
          mset (seeds s) + mset (map celf_nodeId (Q s))"
proof (induction "stale s" arbitrary: s rule: less_induct)
  case less
  show ?case
  proof (cases "Q s")
    case Nil
    then show ?thesis by (subst celfpp_inner.simps) simp
  next
    case (Cons u rest)
    show ?thesis
    proof (cases "flag u = length (seeds s)")
      case True
      then show ?thesis by (subst celfpp_inner.simps) (simp add: Cons)
    next
      case False
      define upd where "upd =
        (if prevBest u = lastSeed s
         then Some (u\<lparr>mg1 := mg2 u\<rparr>, sel_world s)
         else do {
           (m1, w1) \<leftarrow> calculateMarginalGain rnd (seedSet s) (celf_nodeId u) meme k (sel_world s);
           (m2, w2) \<leftarrow>
             (if truthy (curBest s)
              then calculateMarginalGain rnd (set_add (seedSet s) (the (curBest s)))
                     (celf_nodeId u) meme k w1
              else Some (mg2 u, w1));
           Some (u\<lparr>mg1 := m1, mg2 := m2, prevBest := curBest s\<rparr>, w2)
         })"
      have "\<exists>u1 w'. upd = Some (u1, w') \<and> world_graph w' = world_graph (sel_world s) \<and>
                     celf_nodeId u1 = celf_nodeId u"
      proof (cases "prevBest u = lastSeed s")
        case True
        then show ?thesis by (simp add: upd_def)
      next
        case False
        from calculateMarginalGain_returns[of rnd "seedSet s" "celf_nodeId u" meme k "sel_world s"]
        obtain m1 w1 where m1:
          "calculateMarginalGain rnd (seedSet s) (celf_nodeId u) meme k (sel_world s) = Some (m1, w1)"
          "world_graph w1 = world_graph (sel_world s)" by blast
        from calculateMarginalGain_returns[of rnd "set_add (seedSet s) (the (curBest s))" "celf_nodeId u" meme k w1]
        obtain m2 w2 where m2:
          "calculateMarginalGain rnd (set_add (seedSet s) (the (curBest s))) (celf_nodeId u) meme k w1 = Some (m2, w2)"
          "world_graph w2 = world_graph w1" by blast
        show ?thesis using False m1 m2 by (simp add: upd_def)
      qed
      then obtain u1 w' where u1: "upd = Some (u1, w')" "world_graph w' = world_graph (sel_world s)"
        "celf_nodeId u1 = celf_nodeId u"
        by blast
      let ?u2 = "u1\<lparr>flag := length (seeds s)\<rparr>"
      let ?best =
        "(let curBestNode = (if truthy (curBest s) then find (\<lambda>n. Some (celf_nodeId n) = curBest s) (?u2 # rest) else None)
         in if \<not> truthy (curBest s) \<or> curBestNode = None \<or> mg1 ?u2 > mg1 (the curBestNode)
            then Some (celf_nodeId ?u2) else curBest s)"
      let ?s1 = "s\<lparr>Q := sortQ (?u2 # rest), curBest := ?best, sel_world := w'\<rparr>"
      have unfold: "celfpp_inner rnd meme k s = celfpp_inner rnd meme k ?s1"
        by (subst celfpp_inner.simps)
           (simp add: Cons False upd_def[symmetric] u1 Let_def)
      have "stale ?s1 < stale s"
        by (simp add: stale_def length_filter_sortQ Cons False)
      from less[OF this] obtain s' where s': "celfpp_inner rnd meme k ?s1 = Some s'"
        "world_graph (sel_world s') = world_graph (sel_world ?s1)"
        "Q ?s1 \<noteq> [] \<longrightarrow> length (seeds s') = Suc (length (seeds ?s1)) \<and>
                     Suc (length (Q s')) = length (Q ?s1)"
        "mset (seeds s') + mset (map celf_nodeId (Q s')) =
          mset (seeds ?s1) + mset (map celf_nodeId (Q ?s1))" by blast
      have len: "length (Q ?s1) = length (Q s)" by (simp add: sortQ_def Cons)
      have ne: "Q ?s1 \<noteq> []" by (simp add: sortQ_def)
      have ids: "mset (map celf_nodeId (Q ?s1)) = mset (map celf_nodeId (Q s))"
        by (simp add: mset_ids_sortQ Cons u1(3))
      show ?thesis using s' u1(2) len ne ids unfolding unfold by (intro exI[of _ s']) simp
    qed
  qed
qed

lemma celfpp_outer_returns:
  "\<exists>s'. celfpp_outer rnd meme budget k s = Some s' \<and>
        world_graph (sel_world s') = world_graph (sel_world s) \<and>
        length (seeds s') =
          (if length (seeds s) < nat \<lceil>budget\<rceil>
           then min (nat \<lceil>budget\<rceil>) (length (seeds s) + length (Q s)) else length (seeds s)) \<and>
        mset (seeds s') + mset (map celf_nodeId (Q s')) =
          mset (seeds s) + mset (map celf_nodeId (Q s))"
proof (induction "length (Q s)" arbitrary: s rule: less_induct)
  case less
  show ?case
  proof (cases "real (length (seeds s)) < budget \<and> Q s \<noteq> []")
    case False
    then have "celfpp_outer rnd meme budget k s = Some s" by (subst celfpp_outer.simps) auto
    then show ?thesis using False by (auto simp: less_budget_iff)
  next
    case True
    from celfpp_inner_returns[of rnd meme k s] True obtain s1 where s1:
      "celfpp_inner rnd meme k s = Some s1" "world_graph (sel_world s1) = world_graph (sel_world s)"
      "length (seeds s1) = Suc (length (seeds s))" "Suc (length (Q s1)) = length (Q s)"
      "mset (seeds s1) + mset (map celf_nodeId (Q s1)) =
          mset (seeds s) + mset (map celf_nodeId (Q s))" by blast
    have "length (Q s1) < length (Q s)" using s1(4) by simp
    from less[OF this] obtain s' where s':
      "celfpp_outer rnd meme budget k s1 = Some s'" "world_graph (sel_world s') = world_graph (sel_world s1)"
      "length (seeds s') =
          (if length (seeds s1) < nat \<lceil>budget\<rceil>
           then min (nat \<lceil>budget\<rceil>) (length (seeds s1) + length (Q s1)) else length (seeds s1))"
      "mset (seeds s') + mset (map celf_nodeId (Q s')) =
          mset (seeds s1) + mset (map celf_nodeId (Q s1))"
      by blast
    have run: "celfpp_outer rnd meme budget k s = Some s'"
      using s1(1) s'(1) True by (subst celfpp_outer.simps) simp
    define B where "B = nat \<lceil>budget\<rceil>"
    have lt: "length (seeds s) < B" using True by (simp add: less_budget_iff B_def)
    have "length (seeds s') =
          (if length (seeds s1) < B then min B (length (seeds s1) + length (Q s1)) else length (seeds s1))"
      using s'(3) by (simp only: B_def)
    then have "length (seeds s') = min B (length (seeds s) + length (Q s))"
      using s1(3,4) lt by (auto simp: min_def)
    then show ?thesis using run s'(2,4) s1(2,5) lt by (simp add: B_def)
  qed
qed

lemma celfPlusPlusSelection_returns:
  "\<exists>sel w'. celfPlusPlusSelection rnd meme budget k w = Some (sel, w') \<and> world_graph w' = world_graph w \<and>
     length sel = min (nat \<lceil>budget\<rceil>) (length (candidates (nodes (world_graph w)))) \<and>
     mset sel \<subseteq># mset (candidates (nodes (world_graph w)))"
proof -
  let ?i = "\<lparr>seeds = [], seedSet = [], Q = [], lastSeed = None, curBest = None, sel_world = w\<rparr>"
  let ?c = "candidates (nodes (world_graph w))"
  have "curBest_ok ?i" by (simp add: curBest_ok_def truthy_def)
  from celfpp_init_returns[OF this, of rnd meme k "nodes (world_graph w)"] obtain s0 where
    s0: "celfpp_init rnd meme k (nodes (world_graph w)) ?i = Some s0"
    "world_graph (sel_world s0) = world_graph w" "seeds s0 = []"
    "map celf_nodeId (Q s0) = ?c" by auto
  let ?s1 = "s0\<lparr>Q := sortQ (Q s0)\<rparr>"
  have q1: "length (Q ?s1) = length ?c" "mset (map celf_nodeId (Q ?s1)) = mset ?c"
  proof -
    have "length (Q ?s1) = length (map celf_nodeId (Q s0))" by (simp add: sortQ_def)
    then show "length (Q ?s1) = length ?c" by (simp only: s0(4))
    have "mset (map celf_nodeId (Q ?s1)) = mset (map celf_nodeId (Q s0))"
      by (simp add: mset_ids_sortQ)
    then show "mset (map celf_nodeId (Q ?s1)) = mset ?c" by (simp only: s0(4))
  qed
  from celfpp_outer_returns[of rnd meme budget k ?s1] obtain s where s:
    "celfpp_outer rnd meme budget k ?s1 = Some s"
    "world_graph (sel_world s) = world_graph (sel_world ?s1)"
    "length (seeds s) =
          (if length (seeds ?s1) < nat \<lceil>budget\<rceil>
           then min (nat \<lceil>budget\<rceil>) (length (seeds ?s1) + length (Q ?s1)) else length (seeds ?s1))"
    "mset (seeds s) + mset (map celf_nodeId (Q s)) =
          mset (seeds ?s1) + mset (map celf_nodeId (Q ?s1))" by blast
  have len: "length (seeds s) = min (nat \<lceil>budget\<rceil>) (length ?c)"
    using s(3) s0(3) q1(1) by (auto simp: min_def)
  have "mset (seeds s) + mset (map celf_nodeId (Q s)) = mset ?c"
    using s(4) s0(3) q1(2) by simp
  then have sub: "mset (seeds s) \<subseteq># mset ?c" by (metis mset_subset_eq_add_left)
  show ?thesis using s0(1,2) s(1,2) len sub by (simp add: celfPlusPlusSelection_def)
qed

text \<open>
  What the two selectors have in common for every graph, meme, budget, number of
  simulations and random source: both return, and they return equally many seeds, the
  budget rounded up (0 if it is negative), or all candidates when there are fewer. The
  seeds of each are candidates, that is ids of susceptible nodes, no candidate chosen
  twice.
\<close>

lemma celf_selectors_same_size:
  "\<exists>sel1 w1 sel2 w2.
     celfSelection rnd meme budget k w = Some (sel1, w1) \<and>
     celfPlusPlusSelection rnd meme budget k w = Some (sel2, w2) \<and>
     length sel1 = min (nat \<lceil>budget\<rceil>) (length (candidates (nodes (world_graph w)))) \<and>
     length sel2 = length sel1 \<and>
     mset sel1 \<subseteq># mset (candidates (nodes (world_graph w))) \<and>
     mset sel2 \<subseteq># mset (candidates (nodes (world_graph w)))"
proof -
  from celfSelection_returns[of rnd meme budget k w] obtain sel1 w1 where 1:
    "celfSelection rnd meme budget k w = Some (sel1, w1)"
    "length sel1 = min (nat \<lceil>budget\<rceil>) (length (candidates (nodes (world_graph w))))"
    "mset sel1 \<subseteq># mset (candidates (nodes (world_graph w)))" by blast
  from celfPlusPlusSelection_returns[of rnd meme budget k w] obtain sel2 w2 where 2:
    "celfPlusPlusSelection rnd meme budget k w = Some (sel2, w2)"
    "length sel2 = min (nat \<lceil>budget\<rceil>) (length (candidates (nodes (world_graph w))))"
    "mset sel2 \<subseteq># mset (candidates (nodes (world_graph w)))" by blast
  show ?thesis using 1 2 by simp
qed

section \<open>The graph is read only\<close>

text \<open>
  The propagation step writes to the graph: with random values 0, the infected node \<open>a\<close>
  of \<open>net_active\<close> transmits to \<open>b\<close>, and \<open>b\<close> is infected in the graph the step leaves.
\<close>

lemma simulatePropagationStep_writes:
  "map state (nodes (world_graph (snd (simulatePropagationStep (\<lambda>i. 0)
      [(mk_node ''a'' tech_worker 0 0 0 0 1 [(''b'', 0.5)])\<lparr>state := infected\<rparr>]
      (mk_meme 0 0 1 0 1 0) 0 (fresh_world net_active))))) = [infected, infected] \<and>
   map state (nodes net_active) = [infected, susceptible]"
  by (simp add: simulatePropagationStep_def transmitFrom_def transmitTo_def math_random_def
      calculateTransmissionProbability_def calculateAcceptanceProbability_def clamp_def
      net_active_def fresh_world_def mk_network_def mk_node_def mk_meme_def Let_def
      js_get_def object_prototype_keys_def del: not_None_eq)

text \<open>
  C7: the pathfinder and both seed selectors return, and the graph instance they leave
  behind is the one they were given: every node has the state, and every other field, it
  had before the call. (The model threads the caller's graph through every loop of the
  three functions, where an assignment to a node would be an update of it, as it is in
  \<^const>\<open>simulatePropagationStep\<close>; their results carry it back. The cascade of
  \<^const>\<open>estimateSpread\<close> keeps its own infected set and does not call the propagation
  step.)
\<close>

theorem graph_is_read_only:
  "(\<exists>r. astarInfluencePath net sid tid meme mode = Some (r, net)) \<and>
   (\<exists>sel w'. celfSelection rnd meme budget k w = Some (sel, w') \<and> world_graph w' = world_graph w) \<and>
   (\<exists>sel w'. celfPlusPlusSelection rnd meme budget k w = Some (sel, w') \<and> world_graph w' = world_graph w)"
  using astarInfluencePath_returns celfSelection_returns celfPlusPlusSelection_returns by blast

end
